theory Spec2Isabelle
  imports Main
begin

section \<open>Strings and values of the host language\<close>

text \<open>
  Strings are modelled as lists of ASCII characters. \<open>trim\<close> removes the ASCII white
  space and line terminators at both ends, \<open>toLowerCase\<close> maps \<open>A\<close>..\<open>Z\<close> to
  \<open>a\<close>..\<open>z\<close> and leaves every other character alone.
\<close>

definition isWhiteSpace :: "char \<Rightarrow> bool" where
  "isWhiteSpace c = (c \<in> set [CHR 0x09, CHR 0x0A, CHR 0x0B, CHR 0x0C, CHR 0x0D, CHR 0x20])"

definition trim :: "string \<Rightarrow> string" where
  "trim s = rev (dropWhile isWhiteSpace (rev (dropWhile isWhiteSpace s)))"

definition toLowerCase_char :: "char \<Rightarrow> char" where
  "toLowerCase_char c =
     (case map_of (zip ''ABCDEFGHIJKLMNOPQRSTUVWXYZ'' ''abcdefghijklmnopqrstuvwxyz'') c of
        None \<Rightarrow> c
      | Some l \<Rightarrow> l)"

definition toLowerCase :: "string \<Rightarrow> string" where
  "toLowerCase s = map toLowerCase_char s"

text \<open>\<open>s.startsWith(p)\<close> and \<open>s.includes(p)\<close>.\<close>

fun startsWith :: "string \<Rightarrow> string \<Rightarrow> bool" where
  "startsWith s [] = True"
| "startsWith [] (p # ps) = False"
| "startsWith (c # cs) (p # ps) = (c = p \<and> startsWith cs ps)"

fun str_includes :: "string \<Rightarrow> string \<Rightarrow> bool" where
  "str_includes [] p = (p = [])"
| "str_includes (c # cs) p = (startsWith (c # cs) p \<or> str_includes cs p)"

text \<open>
  \<open>String(n)\<close> for an integer \<open>n\<close>: its decimal digits, with a minus sign when negative.
\<close>

fun toString_nat :: "nat \<Rightarrow> string" where
  "toString_nat n =
     (if n < 10 then [''0123456789'' ! n]
      else toString_nat (n div 10) @ [''0123456789'' ! (n mod 10)])"

declare toString_nat.simps [simp del]

definition toString :: "int \<Rightarrow> string" where
  "toString i = (if i < 0 then CHR ''-'' # toString_nat (nat (- i)) else toString_nat (nat i))"

text \<open>
  A property value is \<open>undefined\<close>, a string or a number. \<open>truthy\<close> is the coercion
  that \<open>if (v)\<close>, \<open>!v\<close> and \<open>v || w\<close> apply.
\<close>

datatype jsval = Undefined | Str string | Num int

fun truthy :: "jsval \<Rightarrow> bool" where
  "truthy Undefined = False"
| "truthy (Str s) = (s \<noteq> [])"
| "truthy (Num n) = (n \<noteq> 0)"

section \<open>Metadata records and errors (types/metadata.ts, types/errors.ts)\<close>

text \<open>
  A \<open>LinkMetadata\<close> or \<open>Partial<LinkMetadata>\<close> object maps the property names it owns
  to their values. An own property may hold \<open>undefined\<close>, which is different from the
  property being absent only for \<open>Object.assign\<close>: reading gives \<open>undefined\<close> in both
  cases.
\<close>

datatype field =
  Url | Title | Description | Host | SiteName | Favicon | Image | LocalImage | Indent

type_synonym object = "field \<rightharpoonup> jsval"

definition getProp :: "object \<Rightarrow> field \<Rightarrow> jsval" where
  "getProp ob f = (case ob f of None \<Rightarrow> Undefined | Some v \<Rightarrow> v)"

text \<open>
  \<open>Object.assign(target, source)\<close> sets on the target every own property of the source,
  also those whose value is \<open>undefined\<close>.
\<close>

definition Object_assign :: "object \<Rightarrow> object \<Rightarrow> object" where
  "Object_assign target source = target ++ source"

text \<open>
  The error classes with the arguments of their constructors; \<open>Error\<close> is any other
  thrown error, with its message.
\<close>

datatype error =
    NetworkError string string
  | TimeoutError string int
  | ParseError string string
  | CacheError string
  | Error string

text \<open>
  The \<open>message\<close> that each class passes to \<open>super\<close> and the \<open>url\<close> property of
  the two classes that have one. The fixed words of the messages are not ASCII; they
  are held as their UTF-8 bytes.
\<close>

definition NetworkError_prefix :: string where
  "NetworkError_prefix =
     [CHR 0xE8, CHR 0x8E, CHR 0xB7, CHR 0xE5, CHR 0x8F, CHR 0x96, CHR 0xE5, CHR 0x86, CHR 0x85,
      CHR 0xE5, CHR 0xAE, CHR 0xB9, CHR 0xE5, CHR 0xA4, CHR 0xB1, CHR 0xE8, CHR 0xB4, CHR 0xA5,
      CHR 0x20]"

definition TimeoutError_prefix :: string where
  "TimeoutError_prefix =
     [CHR 0xE8, CHR 0xAF, CHR 0xB7, CHR 0xE6, CHR 0xB1, CHR 0x82, CHR 0xE8, CHR 0xB6, CHR 0x85,
      CHR 0xE6, CHR 0x97, CHR 0xB6, CHR 0x20]"

definition ParseError_prefix :: string where
  "ParseError_prefix =
     [CHR 0xE8, CHR 0xA7, CHR 0xA3, CHR 0xE6, CHR 0x9E, CHR 0x90, CHR 0xE5, CHR 0x86, CHR 0x85,
      CHR 0xE5, CHR 0xAE, CHR 0xB9, CHR 0xE5, CHR 0xA4, CHR 0xB1, CHR 0xE8, CHR 0xB4, CHR 0xA5,
      CHR 0x3A, CHR 0x20]"

definition CacheError_prefix :: string where
  "CacheError_prefix =
     [CHR 0xE7, CHR 0xBC, CHR 0x93, CHR 0xE5, CHR 0xAD, CHR 0x98, CHR 0xE9, CHR 0x94, CHR 0x99,
      CHR 0xE8, CHR 0xAF, CHR 0xAF, CHR 0x3A, CHR 0x20]"

fun error_message :: "error \<Rightarrow> string" where
  "error_message (NetworkError message url) = NetworkError_prefix @ url @ '': '' @ message"
| "error_message (TimeoutError url ms) =
     TimeoutError_prefix @ url @ '' ('' @ toString ms @ ''ms)''"
| "error_message (ParseError message source) = ParseError_prefix @ message"
| "error_message (CacheError message) = CacheError_prefix @ message"
| "error_message (Error message) = message"

fun error_url :: "error \<Rightarrow> string option" where
  "error_url (NetworkError message url) = Some url"
| "error_url (TimeoutError url ms) = Some url"
| "error_url (ParseError message source) = None"
| "error_url (CacheError message) = None"
| "error_url (Error message) = None"

section \<open>The fetcher (core/link-metadata/fetcher.ts)\<close>

text \<open>
  The options of a call; an absent field is \<open>None\<close>. The number of retries is a natural
  number.
\<close>

record FetchOptions =
  timeout :: "int option"
  maxRetries :: "nat option"
  retryDelay :: "int option"

record MergedFetchOptions =
  m_timeout :: int
  m_maxRetries :: nat
  m_retryDelay :: int

text \<open>\<open>{ ...DEFAULT_FETCH_OPTIONS, ...options }\<close>: ten seconds, two retries, one second.\<close>

definition mergeFetchOptions :: "FetchOptions \<Rightarrow> MergedFetchOptions" where
  "mergeFetchOptions options =
     \<lparr> m_timeout = (case timeout options of None \<Rightarrow> 10000 | Some t \<Rightarrow> t),
       m_maxRetries = (case maxRetries options of None \<Rightarrow> 2 | Some n \<Rightarrow> n),
       m_retryDelay = (case retryDelay options of None \<Rightarrow> 1000 | Some d \<Rightarrow> d) \<rparr>"

record RequestUrlParam =
  req_url :: string
  req_timeout_header :: string

text \<open>The response: its fields \<open>status\<close> and \<open>text\<close>.\<close>

record RequestUrlResponse =
  status :: int
  response_text :: string

text \<open>
  The transport \<open>requestUrl\<close> of the host application is a parameter: its outcome at the
  call number \<open>attempt\<close> of one \<open>fetchContent\<close>, where \<open>Inl msg\<close> is a rejection with an
  error whose message is \<open>msg\<close>.
\<close>

type_synonym transport = "nat \<Rightarrow> RequestUrlParam \<Rightarrow> string + RequestUrlResponse"

text \<open>
  What one run of the retry loop did: the response returned, or \<open>lastError\<close> when the loop
  ran out (\<open>None\<close> is \<open>null\<close>); the number of calls of \<open>requestUrl\<close>; the delays
  slept, in order.
\<close>

record fetch_run =
  outcome :: "string option + RequestUrlResponse"
  calls :: nat
  sleeps :: "int list"

function fetch_loop ::
  "transport \<Rightarrow> string \<Rightarrow> MergedFetchOptions \<Rightarrow> nat \<Rightarrow> string option \<Rightarrow> nat \<Rightarrow> int list
     \<Rightarrow> fetch_run" where
  "fetch_loop requestUrl url mergedOptions attempt lastError n slept =
     (if attempt \<le> m_maxRetries mergedOptions then
        (case requestUrl attempt
                \<lparr> req_url = url, req_timeout_header = toString (m_timeout mergedOptions) \<rparr> of
           Inr response \<Rightarrow> \<lparr> outcome = Inr response, calls = Suc n, sleeps = slept \<rparr>
         | Inl message \<Rightarrow>
             fetch_loop requestUrl url mergedOptions (Suc attempt) (Some message) (Suc n)
               (if attempt < m_maxRetries mergedOptions
                then slept @ [m_retryDelay mergedOptions] else slept))
      else \<lparr> outcome = Inl lastError, calls = n, sleeps = slept \<rparr>)"
  by pat_completeness auto
termination
  by (relation "measure (\<lambda>(requestUrl, url, mergedOptions, attempt, lastError, n, slept).
        Suc (m_maxRetries mergedOptions) - attempt)") auto

declare fetch_loop.simps [simp del]

definition fetchContent_run :: "transport \<Rightarrow> string \<Rightarrow> FetchOptions \<Rightarrow> fetch_run" where
  "fetchContent_run requestUrl url options =
     fetch_loop requestUrl url (mergeFetchOptions options) 0 None 0 []"

text \<open>
  \<open>fetchContent(url, options)\<close>: the response of the loop, or the error thrown after it.
\<close>

definition fetchContent ::
  "transport \<Rightarrow> string \<Rightarrow> FetchOptions \<Rightarrow> error + RequestUrlResponse" where
  "fetchContent requestUrl url options =
     (case outcome (fetchContent_run requestUrl url options) of
        Inr response \<Rightarrow> Inr response
      | Inl lastError \<Rightarrow>
          (case lastError of
             None \<Rightarrow> Inl (NetworkError ''Unknown network error'' url)
           | Some message \<Rightarrow>
               if str_includes message ''timeout''
               then Inl (TimeoutError url (m_timeout (mergeFetchOptions options)))
               else Inl (NetworkError
                           (if message \<noteq> [] then message else ''Unknown network error'') url)))"

section \<open>The parser (core/link-metadata/parser.ts)\<close>

text \<open>
  The document that \<open>DOMParser.parseFromString\<close> builds is the list of its elements in
  document order, each with its lower-case tag name, its attributes and its text content.
  \<open>DOMParser\<close> and the \<open>URL\<close> constructor belong to the platform and are parameters;
  \<open>new URL(s)\<close> gives the origin and the host name, or throws (\<open>Inl\<close> with the message).
\<close>

record element =
  localName :: string
  attributes :: "(string \<times> string) list"
  textContent :: string

type_synonym document = "element list"

record URL =
  origin :: string
  hostname :: string

record platform =
  parseFromString :: "string \<Rightarrow> document"
  new_URL :: "string \<Rightarrow> string + URL"

text \<open>
  The selectors the strategies use: a tag name, or a tag name with one attribute of a given
  value; a selector list matches when one of its members does. \<open>querySelector\<close> returns
  the first match in document order, \<open>getAttribute\<close> the value or \<open>null\<close>.

  In an HTML document the value in an attribute selector is compared without regard to ASCII
  case for the attributes that the HTML standard lists, \<open>rel\<close> among them, and exactly
  for all others, such as \<open>property\<close> and \<open>name\<close>.
\<close>

datatype selector = Tag string | TagAttr string string string

definition getAttribute :: "element \<Rightarrow> string \<Rightarrow> string option" where
  "getAttribute e name = map_of (attributes e) name"

definition case_insensitive_attributes :: "string list" where
  "case_insensitive_attributes =
     [''accept'', ''accept-charset'', ''align'', ''alink'', ''axis'', ''bgcolor'', ''charset'',
      ''checked'', ''clear'', ''codetype'', ''color'', ''compact'', ''declare'', ''defer'',
      ''dir'', ''direction'', ''disabled'', ''enctype'', ''face'', ''frame'', ''hreflang'',
      ''http-equiv'', ''lang'', ''language'', ''link'', ''media'', ''method'', ''multiple'',
      ''nohref'', ''noresize'', ''noshade'', ''nowrap'', ''readonly'', ''rel'', ''rev'',
      ''rules'', ''scope'', ''scrolling'', ''selected'', ''shape'', ''target'', ''text'',
      ''type'', ''valign'', ''valuetype'', ''vlink'']"

definition attribute_value_matches :: "string \<Rightarrow> string \<Rightarrow> string \<Rightarrow> bool" where
  "attribute_value_matches a w v =
     (if a \<in> set case_insensitive_attributes then toLowerCase w = toLowerCase v else w = v)"

fun matches :: "element \<Rightarrow> selector \<Rightarrow> bool" where
  "matches e (Tag t) = (localName e = t)"
| "matches e (TagAttr t a v) =
     (localName e = t \<and>
      (case getAttribute e a of None \<Rightarrow> False | Some w \<Rightarrow> attribute_value_matches a w v))"

definition querySelector :: "document \<Rightarrow> selector list \<Rightarrow> element option" where
  "querySelector htmlDoc selectors = find (\<lambda>e. list_ex (matches e) selectors) htmlDoc"

text \<open>\<open>htmlDoc.querySelector(sel)?.getAttribute("content") ?? undefined\<close>\<close>

definition content_of :: "document \<Rightarrow> selector \<Rightarrow> jsval" where
  "content_of htmlDoc sel =
     (case querySelector htmlDoc [sel] of
        None \<Rightarrow> Undefined
      | Some e \<Rightarrow> (case getAttribute e ''content'' of None \<Rightarrow> Undefined | Some s \<Rightarrow> Str s))"

definition OpenGraphStrategy_parse :: "platform \<Rightarrow> string \<Rightarrow> string \<Rightarrow> string + object" where
  "OpenGraphStrategy_parse P url htmlContent =
     (let htmlDoc = parseFromString P htmlContent in
      Inr [Title \<mapsto> content_of htmlDoc (TagAttr ''meta'' ''property'' ''og:title''),
           Description \<mapsto> content_of htmlDoc (TagAttr ''meta'' ''property'' ''og:description''),
           Image \<mapsto> content_of htmlDoc (TagAttr ''meta'' ''property'' ''og:image''),
           SiteName \<mapsto> content_of htmlDoc (TagAttr ''meta'' ''property'' ''og:site_name'')])"

definition TwitterCardStrategy_parse :: "platform \<Rightarrow> string \<Rightarrow> string \<Rightarrow> string + object" where
  "TwitterCardStrategy_parse P url htmlContent =
     (let htmlDoc = parseFromString P htmlContent in
      Inr [Title \<mapsto> content_of htmlDoc (TagAttr ''meta'' ''name'' ''twitter:title''),
           Description \<mapsto> content_of htmlDoc (TagAttr ''meta'' ''name'' ''twitter:description''),
           Image \<mapsto> content_of htmlDoc (TagAttr ''meta'' ''name'' ''twitter:image'')])"

text \<open>\<open>getFavicon(htmlDoc, baseUrl)\<close>; it throws when \<open>new URL(baseUrl)\<close> does.\<close>

definition default_favicon :: "platform \<Rightarrow> string \<Rightarrow> string + string" where
  "default_favicon P baseUrl =
     (case new_URL P baseUrl of Inl msg \<Rightarrow> Inl msg | Inr u \<Rightarrow> Inr (origin u @ ''/favicon.ico''))"

definition getFavicon :: "platform \<Rightarrow> document \<Rightarrow> string \<Rightarrow> string + string" where
  "getFavicon P htmlDoc baseUrl =
     (case querySelector htmlDoc
             [TagAttr ''link'' ''rel'' ''icon'', TagAttr ''link'' ''rel'' ''shortcut icon''] of
        Some faviconLink \<Rightarrow>
          (case getAttribute faviconLink ''href'' of
             Some faviconUrl \<Rightarrow>
               if faviconUrl \<noteq> [] then
                 (if startsWith faviconUrl ''/'' then
                    (case new_URL P baseUrl of
                       Inl msg \<Rightarrow> Inl msg
                     | Inr u \<Rightarrow> Inr (origin u @ faviconUrl))
                  else Inr faviconUrl)
               else default_favicon P baseUrl
           | None \<Rightarrow> default_favicon P baseUrl)
      | None \<Rightarrow> default_favicon P baseUrl)"

definition StandardHTMLStrategy_title :: "document \<Rightarrow> jsval" where
  "StandardHTMLStrategy_title htmlDoc =
     (let title = (case querySelector htmlDoc [Tag ''title''] of
                     None \<Rightarrow> Undefined
                   | Some e \<Rightarrow> Str (textContent e))
      in if \<not> truthy title then
           (case querySelector htmlDoc [Tag ''h1''] of
              None \<Rightarrow> Undefined
            | Some e \<Rightarrow> if trim (textContent e) \<noteq> [] then Str (trim (textContent e)) else Undefined)
         else title)"

definition StandardHTMLStrategy_parse :: "platform \<Rightarrow> string \<Rightarrow> string \<Rightarrow> string + object" where
  "StandardHTMLStrategy_parse P url htmlContent =
     (let htmlDoc = parseFromString P htmlContent;
          title = StandardHTMLStrategy_title htmlDoc;
          description = content_of htmlDoc (TagAttr ''meta'' ''name'' ''description'')
      in case getFavicon P htmlDoc url of
           Inl msg \<Rightarrow> Inl msg
         | Inr favicon \<Rightarrow>
             Inr [Title \<mapsto> title, Description \<mapsto> description, Favicon \<mapsto> Str favicon])"

datatype strategy = OpenGraphStrategy | TwitterCardStrategy | StandardHTMLStrategy

fun strategy_parse :: "platform \<Rightarrow> strategy \<Rightarrow> string \<Rightarrow> string \<Rightarrow> string + object" where
  "strategy_parse P OpenGraphStrategy url htmlContent = OpenGraphStrategy_parse P url htmlContent"
| "strategy_parse P TwitterCardStrategy url htmlContent =
     TwitterCardStrategy_parse P url htmlContent"
| "strategy_parse P StandardHTMLStrategy url htmlContent =
     StandardHTMLStrategy_parse P url htmlContent"

text \<open>The constructor of \<open>MetadataParser\<close> registers the three strategies by \<open>push\<close>.\<close>

definition registerStrategy :: "strategy list \<Rightarrow> strategy \<Rightarrow> strategy list" where
  "registerStrategy strategies s = strategies @ [s]"

definition MetadataParser_new :: "strategy list" where
  "MetadataParser_new =
     registerStrategy
       (registerStrategy (registerStrategy [] OpenGraphStrategy) TwitterCardStrategy)
       StandardHTMLStrategy"

text \<open>The loop over the strategies; a strategy that throws ends it.\<close>

fun apply_strategies ::
  "platform \<Rightarrow> strategy list \<Rightarrow> string \<Rightarrow> string \<Rightarrow> object \<Rightarrow> string + object" where
  "apply_strategies P [] url htmlContent metadata = Inr metadata"
| "apply_strategies P (s # rest) url htmlContent metadata =
     (case strategy_parse P s url htmlContent of
        Inl msg \<Rightarrow> Inl msg
      | Inr result \<Rightarrow> apply_strategies P rest url htmlContent (Object_assign metadata result))"

text \<open>
  The chain of replacements of \<open>cleanMetadata\<close>: line breaks removed, every backslash
  doubled, every double quote preceded by a backslash, then \<open>trim\<close>.
\<close>

definition clean_string :: "string \<Rightarrow> string" where
  "clean_string s =
     trim (concat (map (\<lambda>c. if c = CHR 0x22 then [CHR 0x5C, CHR 0x22] else [c])
            (concat (map (\<lambda>c. if c = CHR 0x5C then [CHR 0x5C, CHR 0x5C] else [c])
               (filter (\<lambda>c. c \<noteq> CHR 0x0D \<and> c \<noteq> CHR 0x0A) s)))))"

definition clean_field :: "object \<Rightarrow> field \<Rightarrow> object" where
  "clean_field metadata f =
     (case getProp metadata f of
        Str s \<Rightarrow> if s \<noteq> [] then metadata(f \<mapsto> Str (clean_string s)) else metadata
      | Undefined \<Rightarrow> metadata
      | Num n \<Rightarrow> metadata)"

definition cleanMetadata :: "object \<Rightarrow> object" where
  "cleanMetadata metadata = clean_field (clean_field metadata Title) Description"

definition MetadataParser_parse ::
  "platform \<Rightarrow> strategy list \<Rightarrow> string \<Rightarrow> string \<Rightarrow> error + object" where
  "MetadataParser_parse P strategies url htmlContent =
     (case new_URL P url of
        Inl msg \<Rightarrow> Inl (ParseError msg htmlContent)
      | Inr u \<Rightarrow>
          (case apply_strategies P strategies url htmlContent
                  [Url \<mapsto> Str url, Host \<mapsto> Str (hostname u), Indent \<mapsto> Num 0] of
             Inl msg \<Rightarrow> Inl (ParseError msg htmlContent)
           | Inr merged \<Rightarrow>
               (let metadata = cleanMetadata merged in
                Inr (if \<not> truthy (getProp metadata Title) then metadata(Title \<mapsto> Str url)
                     else metadata))))"

section \<open>The cache (core/link-metadata/cache.ts)\<close>

text \<open>
  \<open>CacheItem<T>\<close>: the cached data, the time stamp of its creation and the time stamp
  of its expiry.
\<close>

record 'a CacheItem =
  data :: 'a
  timestamp :: int
  expiry :: int

text \<open>
  The \<open>Map<string, CacheItem>\<close> of the class is an association list in insertion order
  (the order in which \<open>entries()\<close> iterates). \<open>Map.set\<close> on a key that is present
  replaces the value and keeps the position; on a new key it appends.
\<close>

type_synonym 'a store = "(string \<times> 'a CacheItem) list"

fun Map_set :: "'a store \<Rightarrow> string \<Rightarrow> 'a CacheItem \<Rightarrow> 'a store" where
  "Map_set [] k v = [(k, v)]"
| "Map_set ((k', v') # rest) k v =
     (if k' = k then (k, v) # rest else (k', v') # Map_set rest k v)"

definition Map_get :: "'a store \<Rightarrow> string \<Rightarrow> 'a CacheItem option" where
  "Map_get m k = map_of m k"

definition Map_delete :: "'a store \<Rightarrow> string \<Rightarrow> 'a store" where
  "Map_delete m k = filter (\<lambda>e. fst e \<noteq> k) m"

definition Map_size :: "'a store \<Rightarrow> int" where
  "Map_size m = int (length m)"

text \<open>
  The state of a \<open>MetadataCache\<close>: the map and the options after the constructor has
  merged them over \<open>DEFAULT_CACHE_OPTIONS\<close> (one hour, 100 items).
\<close>

record 'a MetadataCache =
  cache :: "'a store"
  ttl :: int
  maxItems :: int

record CacheOptions =
  opt_ttl :: "int option"
  opt_maxItems :: "int option"

definition MetadataCache_new :: "CacheOptions \<Rightarrow> 'a MetadataCache" where
  "MetadataCache_new options =
     \<lparr> cache = [],
       ttl = (case opt_ttl options of None \<Rightarrow> 3600000 | Some t \<Rightarrow> t),
       maxItems = (case opt_maxItems options of None \<Rightarrow> 100 | Some n \<Rightarrow> n) \<rparr>"

definition getCacheKey :: "string \<Rightarrow> string" where
  "getCacheKey url = toLowerCase (trim url)"

text \<open>
  \<open>get(url)\<close>, with the reading of \<open>Date.now()\<close> as the argument \<open>now\<close>. It returns
  the data (\<open>None\<close> for \<open>undefined\<close>) and the cache after the call.
\<close>

definition MetadataCache_get ::
  "'a MetadataCache \<Rightarrow> int \<Rightarrow> string \<Rightarrow> 'a option \<times> 'a MetadataCache" where
  "MetadataCache_get c now url =
     (let cacheKey = getCacheKey url in
      case Map_get (cache c) cacheKey of
        Some item \<Rightarrow>
          if now < expiry item then (Some (data item), c)
          else (None, c\<lparr>cache := Map_delete (cache c) cacheKey\<rparr>)
      | None \<Rightarrow> (None, c))"

text \<open>
  The loop of \<open>evictOldest\<close> over \<open>this.cache.entries()\<close>. Its state is the pair of
  \<open>oldestKey\<close>, which starts as \<open>null\<close> (\<open>None\<close>), and \<open>oldestTimestamp\<close>, which
  starts as \<open>Infinity\<close> (\<open>None\<close>); an entry replaces both when its time stamp is
  strictly smaller.
\<close>

fun oldest_scan ::
  "'a store \<Rightarrow> string option \<times> int option \<Rightarrow> string option \<times> int option" where
  "oldest_scan [] acc = acc"
| "oldest_scan ((key, item) # rest) (oldestKey, oldestTimestamp) =
     (if (case oldestTimestamp of None \<Rightarrow> True | Some t \<Rightarrow> timestamp item < t)
      then oldest_scan rest (Some key, Some (timestamp item))
      else oldest_scan rest (oldestKey, oldestTimestamp))"

text \<open>
  \<open>if (oldestKey)\<close> tests the key for truthiness: \<open>null\<close> and the empty string both
  skip the deletion.
\<close>

definition evictOldest :: "'a store \<Rightarrow> 'a store" where
  "evictOldest m =
     (case fst (oldest_scan m (None, None)) of
        None \<Rightarrow> m
      | Some oldestKey \<Rightarrow> if oldestKey \<noteq> [] then Map_delete m oldestKey else m)"

definition MetadataCache_set ::
  "'a MetadataCache \<Rightarrow> int \<Rightarrow> string \<Rightarrow> 'a \<Rightarrow> 'a MetadataCache" where
  "MetadataCache_set c now url metadata =
     (let cacheKey = getCacheKey url;
          item = \<lparr> data = metadata, timestamp = now, expiry = now + ttl c \<rparr>;
          m = Map_set (cache c) cacheKey item
      in if Map_size m > maxItems c then c\<lparr>cache := evictOldest m\<rparr> else c\<lparr>cache := m\<rparr>)"

definition MetadataCache_delete :: "'a MetadataCache \<Rightarrow> string \<Rightarrow> 'a MetadataCache" where
  "MetadataCache_delete c url = c\<lparr>cache := Map_delete (cache c) (getCacheKey url)\<rparr>"

definition MetadataCache_clear :: "'a MetadataCache \<Rightarrow> 'a MetadataCache" where
  "MetadataCache_clear c = c\<lparr>cache := []\<rparr>"

section \<open>The metadata services\<close>

text \<open>
  What both services are given: the options of the constructor, the plugin settings (of which
  only \<open>preferLocalImages\<close> is read), and the callback that saves an image, whose promise
  resolves with a path (\<open>Inr\<close>) or rejects (\<open>Inl\<close>). The three readings of \<open>Date.now()\<close>
  that one call of \<open>getMetadata\<close> can make, in \<open>cache.get\<close>, for the file name and in
  \<open>cache.set\<close>, come with the call.
\<close>

record MetadataServiceOptions =
  fetchOptions :: "FetchOptions option"
  cacheOptions :: "CacheOptions option"
  enableCache :: "bool option"

record ObsidianAutoCardLinkSettings =
  preferLocalImages :: "bool option"

type_synonym ImageAttachmentSaverCallback = "string \<Rightarrow> string \<Rightarrow> error + string"

record clock =
  now_get :: int
  now_file :: int
  now_set :: int

text \<open>\<open>{ ...DEFAULT_SERVICE_OPTIONS, ...options }.enableCache\<close>, true by default.\<close>

definition merged_enableCache :: "MetadataServiceOptions \<Rightarrow> bool" where
  "merged_enableCache options = (case enableCache options of None \<Rightarrow> True | Some b \<Rightarrow> b)"

text \<open>\<open>fetchContent(url, this.options.fetchOptions)\<close>: an absent argument is \<open>{}\<close>.\<close>

definition service_fetchOptions :: "MetadataServiceOptions \<Rightarrow> FetchOptions" where
  "service_fetchOptions options =
     (case fetchOptions options of
        None \<Rightarrow> \<lparr> timeout = None, maxRetries = None, retryDelay = None \<rparr>
      | Some fo \<Rightarrow> fo)"

text \<open>The cache that the constructor of either service creates.\<close>

definition service_new_cache :: "MetadataServiceOptions \<Rightarrow> object MetadataCache" where
  "service_new_cache options =
     MetadataCache_new
       (case cacheOptions options of
          None \<Rightarrow> \<lparr> opt_ttl = None, opt_maxItems = None \<rparr>
        | Some co \<Rightarrow> co)"

subsection \<open>\<open>LinkMetadataService\<close> (core/link-metadata/service.ts)\<close>

text \<open>
  The image step: the file name is \<open>`${Date.now()}.png`\<close>; the saved path replaces
  \<open>image\<close>; a rejection is logged and leaves the record as it is.
\<close>

definition LinkMetadataService_saveImage ::
  "ImageAttachmentSaverCallback \<Rightarrow> int \<Rightarrow> object \<Rightarrow> object" where
  "LinkMetadataService_saveImage saveImageToAttachment now metadata =
     (case getProp metadata Image of
        Str imageUrl \<Rightarrow>
          if imageUrl \<noteq> [] then
            (let fileName = toString now @ ''.png'' in
             case saveImageToAttachment imageUrl fileName of
               Inr savedPath \<Rightarrow> metadata(Image \<mapsto> Str savedPath)
             | Inl err \<Rightarrow> metadata)
          else metadata
      | Undefined \<Rightarrow> metadata
      | Num n \<Rightarrow> metadata)"

definition LinkMetadataService_getMetadata ::
  "platform \<Rightarrow> transport \<Rightarrow> ImageAttachmentSaverCallback \<Rightarrow> MetadataServiceOptions \<Rightarrow> clock
     \<Rightarrow> object MetadataCache \<Rightarrow> string \<Rightarrow> (error + object) \<times> object MetadataCache" where
  "LinkMetadataService_getMetadata P requestUrl saveImageToAttachment options clk c url =
     (case (if merged_enableCache options then MetadataCache_get c (now_get clk) url
            else (None, c)) of
        (Some cachedMetadata, c1) \<Rightarrow> (Inr cachedMetadata, c1)
      | (None, c1) \<Rightarrow>
          (case fetchContent requestUrl url (service_fetchOptions options) of
             Inl err \<Rightarrow> (Inl err, c1)
           | Inr response \<Rightarrow>
               (case MetadataParser_parse P MetadataParser_new url (response_text response) of
                  Inl err \<Rightarrow> (Inl err, c1)
                | Inr parsed \<Rightarrow>
                    (let metadata =
                           LinkMetadataService_saveImage saveImageToAttachment (now_file clk) parsed
                     in (Inr metadata,
                         if merged_enableCache options
                         then MetadataCache_set c1 (now_set clk) url metadata else c1)))))"

subsection \<open>\<open>MetadataService\<close> (services/metadata-service.ts)\<close>

text \<open>\<open>url.replace(/[^a-zA-Z0-9]/g, '').slice(-8)\<close>\<close>

definition isAlnum :: "char \<Rightarrow> bool" where
  "isAlnum c =
     (c \<in> set ''abcdefghijklmnopqrstuvwxyzABCDEFGHIJKLMNOPQRSTUVWXYZ0123456789'')"

definition urlHash :: "string \<Rightarrow> string" where
  "urlHash url = (let s = filter isAlnum url in drop (length s - 8) s)"

text \<open>
  The image step: the callback is optional; a path that is not empty is stored in
  \<open>localImage\<close> and, when the setting \<open>preferLocalImages\<close> is on, in \<open>image\<close> too.
\<close>

definition MetadataService_saveImage ::
  "ImageAttachmentSaverCallback option \<Rightarrow> ObsidianAutoCardLinkSettings option \<Rightarrow> int
     \<Rightarrow> string \<Rightarrow> object \<Rightarrow> object" where
  "MetadataService_saveImage saveImageToAttachment settings now url metadata =
     (case getProp metadata Image of
        Str imageUrl \<Rightarrow>
          if imageUrl \<noteq> [] then
            (let fileName = ''image_'' @ urlHash url @ ''_'' @ toString now @ ''.png'' in
             case saveImageToAttachment of
               None \<Rightarrow> metadata
             | Some save \<Rightarrow>
                 (case save imageUrl fileName of
                    Inr savedPath \<Rightarrow>
                      if savedPath \<noteq> [] then
                        (if (case settings of
                               None \<Rightarrow> False
                             | Some st \<Rightarrow>
                                 (case preferLocalImages st of None \<Rightarrow> False | Some b \<Rightarrow> b))
                         then metadata(LocalImage \<mapsto> Str savedPath, Image \<mapsto> Str savedPath)
                         else metadata(LocalImage \<mapsto> Str savedPath))
                      else metadata
                  | Inl err \<Rightarrow> metadata))
          else metadata
      | Undefined \<Rightarrow> metadata
      | Num n \<Rightarrow> metadata)"

definition MetadataService_getMetadata ::
  "platform \<Rightarrow> transport \<Rightarrow> ImageAttachmentSaverCallback option
     \<Rightarrow> ObsidianAutoCardLinkSettings option \<Rightarrow> MetadataServiceOptions \<Rightarrow> clock
     \<Rightarrow> object MetadataCache \<Rightarrow> string \<Rightarrow> (error + object) \<times> object MetadataCache" where
  "MetadataService_getMetadata P requestUrl saveImageToAttachment settings options clk c url =
     (case (if merged_enableCache options then MetadataCache_get c (now_get clk) url
            else (None, c)) of
        (Some cachedMetadata, c1) \<Rightarrow> (Inr cachedMetadata, c1)
      | (None, c1) \<Rightarrow>
          (case fetchContent requestUrl url (service_fetchOptions options) of
             Inl err \<Rightarrow> (Inl err, c1)
           | Inr response \<Rightarrow>
               (case MetadataParser_parse P MetadataParser_new url (response_text response) of
                  Inl err \<Rightarrow> (Inl err, c1)
                | Inr parsed \<Rightarrow>
                    (let metadata =
                           MetadataService_saveImage saveImageToAttachment settings
                             (now_file clk) url parsed
                     in (Inr metadata,
                         if merged_enableCache options
                         then MetadataCache_set c1 (now_set clk) url metadata else c1)))))"

text \<open>
  The value of one property of the record that a call returned, or the error that the call
  threw.
\<close>

definition result_prop :: "error + object \<Rightarrow> field \<Rightarrow> error + jsval" where
  "result_prop r f = (case r of Inl err \<Rightarrow> Inl err | Inr metadata \<Rightarrow> Inr (getProp metadata f))"

section \<open>Concrete inputs\<close>

text \<open>
  A platform that knows one URL and five pages: one with an Open Graph title only, one with a
  Twitter image only, one with an icon link only, one with an icon link whose \<open>rel\<close> is
  written \<open>Shortcut Icon\<close>, and one with two icon links of which only the second has an
  \<open>href\<close>.
\<close>

definition example_url :: string where
  "example_url = ''https://example.com''"

definition og_title_html :: string where
  "og_title_html = ''<meta property='og:title' content='A'>''"

definition og_title_document :: document where
  "og_title_document =
     [\<lparr> localName = ''meta'',
        attributes = [(''property'', ''og:title''), (''content'', ''A'')],
        textContent = [] \<rparr>]"

definition twitter_image_html :: string where
  "twitter_image_html = ''<meta name='twitter:image' content='https://example.com/image.jpg'>''"

definition twitter_image_document :: document where
  "twitter_image_document =
     [\<lparr> localName = ''meta'',
        attributes = [(''name'', ''twitter:image''),
                      (''content'', ''https://example.com/image.jpg'')],
        textContent = [] \<rparr>]"

definition icon_link_html :: string where
  "icon_link_html = ''<link rel='icon' href='/custom-favicon.png'>''"

definition icon_link_document :: document where
  "icon_link_document =
     [\<lparr> localName = ''link'',
        attributes = [(''rel'', ''icon''), (''href'', ''/custom-favicon.png'')],
        textContent = [] \<rparr>]"

definition shortcut_icon_html :: string where
  "shortcut_icon_html = ''<link rel='Shortcut Icon' href='/a.png'>''"

definition shortcut_icon_document :: document where
  "shortcut_icon_document =
     [\<lparr> localName = ''link'',
        attributes = [(''rel'', ''Shortcut Icon''), (''href'', ''/a.png'')],
        textContent = [] \<rparr>]"

definition two_icon_links_html :: string where
  "two_icon_links_html = ''<link rel='icon'><link rel='icon' href='/b.png'>''"

definition two_icon_links_document :: document where
  "two_icon_links_document =
     [\<lparr> localName = ''link'', attributes = [(''rel'', ''icon'')], textContent = [] \<rparr>,
      \<lparr> localName = ''link'',
        attributes = [(''rel'', ''icon''), (''href'', ''/b.png'')],
        textContent = [] \<rparr>]"

definition example_platform :: platform where
  "example_platform =
     \<lparr> parseFromString =
         (\<lambda>html. if html = og_title_html then og_title_document
                 else if html = twitter_image_html then twitter_image_document
                 else if html = icon_link_html then icon_link_document
                 else if html = shortcut_icon_html then shortcut_icon_document
                 else if html = two_icon_links_html then two_icon_links_document
                 else []),
       new_URL =
         (\<lambda>s. if s = example_url
              then Inr \<lparr> origin = ''https://example.com'', hostname = ''example.com'' \<rparr>
              else Inl ''Invalid URL'') \<rparr>"

text \<open>
  Transports: one that answers every call with the same response, one that rejects every call
  with the same message, one that rejects the first call and answers the second with a 404.
\<close>

definition transport_ok :: "int \<Rightarrow> string \<Rightarrow> transport" where
  "transport_ok code html = (\<lambda>attempt req. Inr \<lparr> status = code, response_text = html \<rparr>)"

definition transport_failing :: "string \<Rightarrow> transport" where
  "transport_failing message = (\<lambda>attempt req. Inl message)"

definition transport_second_404 :: transport where
  "transport_second_404 =
     (\<lambda>attempt req. if attempt = 0 then Inl ''Network error''
                    else Inr \<lparr> status = 404, response_text = ''Not Found'' \<rparr>)"

definition default_FetchOptions :: FetchOptions where
  "default_FetchOptions = \<lparr> timeout = None, maxRetries = None, retryDelay = None \<rparr>"

definition default_ServiceOptions :: MetadataServiceOptions where
  "default_ServiceOptions = \<lparr> fetchOptions = None, cacheOptions = None, enableCache = None \<rparr>"

definition save_resolves :: ImageAttachmentSaverCallback where
  "save_resolves = (\<lambda>imageUrl fileName. Inr ''attachments/image.png'')"

definition save_rejects :: ImageAttachmentSaverCallback where
  "save_rejects = (\<lambda>imageUrl fileName. Inl (Error ''Failed to save image''))"

definition example_clock :: clock where
  "example_clock = \<lparr> now_get = 1000, now_file = 1001, now_set = 1002 \<rparr>"

text \<open>The cache of the unit tests (100 ms, three items) and some records to store.\<close>

definition test_cache :: "object MetadataCache" where
  "test_cache = MetadataCache_new \<lparr> opt_ttl = Some 100, opt_maxItems = Some 3 \<rparr>"

definition test_metadata :: "string \<Rightarrow> string \<Rightarrow> object" where
  "test_metadata url title = [Url \<mapsto> Str url, Title \<mapsto> Str title, Indent \<mapsto> Num 0]"

text \<open>
  Four insertions at the times 1, 2, 3 and 4 into a cache of three items that keeps its entries
  for a second; the first URL is a blank string.
\<close>

definition blank_first_cache :: "object MetadataCache" where
  "blank_first_cache =
     MetadataCache_set
       (MetadataCache_set
          (MetadataCache_set
             (MetadataCache_set
                (MetadataCache_new \<lparr> opt_ttl = Some 1000, opt_maxItems = Some 3 \<rparr>)
                1 '' '' (test_metadata '' '' ''First''))
             2 ''https://second.com'' (test_metadata ''https://second.com'' ''Second''))
          3 ''https://third.com'' (test_metadata ''https://third.com'' ''Third''))
       4 ''https://fourth.com'' (test_metadata ''https://fourth.com'' ''Fourth'')"

text \<open>The cache of three items after three insertions at the times 1, 2 and 3.\<close>

definition three_entry_cache :: "object MetadataCache" where
  "three_entry_cache =
     MetadataCache_set
       (MetadataCache_set
          (MetadataCache_set
             (MetadataCache_new \<lparr> opt_ttl = Some 1000, opt_maxItems = Some 3 \<rparr>)
             1 ''https://first.com'' (test_metadata ''https://first.com'' ''First''))
          2 ''https://second.com'' (test_metadata ''https://second.com'' ''Second''))
       3 ''https://third.com'' (test_metadata ''https://third.com'' ''Third'')"

text \<open>A cache without room for any item.\<close>

definition zero_capacity_cache :: "object MetadataCache" where
  "zero_capacity_cache = MetadataCache_new \<lparr> opt_ttl = Some 100, opt_maxItems = Some 0 \<rparr>"


section \<open>Facts about strings\<close>

lemma startsWith_self: "startsWith s s"
  by (induction s) auto

lemma str_includes_self: "str_includes s s"
  by (cases s) (auto simp: startsWith_self)

lemma str_includes_suffix: "str_includes (a @ b) b"
  by (induction a) (auto simp: str_includes_self)

lemma str_includes_empty: "str_includes s []"
  by (cases s) auto

section \<open>The retry loop of the fetcher\<close>

text \<open>
  When every call from \<open>attempt\<close> on rejects, the loop runs to the last attempt: it leaves
  the message of the last rejection, has called the transport once per attempt and has slept
  after every attempt but the last.
\<close>

lemma fetch_loop_all_fail:
  assumes "\<And>i. attempt \<le> i \<Longrightarrow> i \<le> m_maxRetries mo \<Longrightarrow>
             requestUrl i \<lparr> req_url = url, req_timeout_header = toString (m_timeout mo) \<rparr>
               = Inl (message i)"
  shows "fetch_loop requestUrl url mo attempt lastError n slept =
           \<lparr> outcome = Inl (if attempt \<le> m_maxRetries mo
                            then Some (message (m_maxRetries mo)) else lastError),
             calls = n + (Suc (m_maxRetries mo) - attempt),
             sleeps = slept @ replicate (m_maxRetries mo - attempt) (m_retryDelay mo) \<rparr>"
  using assms
proof (induction requestUrl url mo attempt lastError n slept rule: fetch_loop.induct)
  case (1 requestUrl url mo attempt lastError n slept)
  show ?case
  proof (cases "attempt \<le> m_maxRetries mo")
    case False
    then show ?thesis by (simp add: fetch_loop.simps)
  next
    case True
    from "1.prems"[of attempt] True
    have here: "requestUrl attempt
                  \<lparr> req_url = url, req_timeout_header = toString (m_timeout mo) \<rparr>
                = Inl (message attempt)" by simp
    have later: "\<And>i. Suc attempt \<le> i \<Longrightarrow> i \<le> m_maxRetries mo \<Longrightarrow>
             requestUrl i \<lparr> req_url = url, req_timeout_header = toString (m_timeout mo) \<rparr>
               = Inl (message i)"
      using "1.prems" by simp
    note IH = "1.IH"[OF True here later]
    show ?thesis
    proof (cases "attempt < m_maxRetries mo")
      case True
      then have "replicate (m_maxRetries mo - attempt) (m_retryDelay mo) =
                 m_retryDelay mo # replicate (m_maxRetries mo - Suc attempt) (m_retryDelay mo)"
        by (cases "m_maxRetries mo - attempt") (auto simp: Suc_diff_Suc)
      with True \<open>attempt \<le> m_maxRetries mo\<close> here IH show ?thesis
        by (subst fetch_loop.simps) (simp add: Suc_diff_le)
    next
      case False
      with \<open>attempt \<le> m_maxRetries mo\<close> have "attempt = m_maxRetries mo" by simp
      with here IH show ?thesis
        by (subst fetch_loop.simps) simp
    qed
  qed
qed

text \<open>
  When the calls from \<open>attempt\<close> up to \<open>k\<close> reject and call \<open>k\<close> answers, the loop
  returns that answer after \<open>k - attempt + 1\<close> calls.
\<close>

lemma fetch_loop_first_success:
  assumes "attempt \<le> k" "k \<le> m_maxRetries mo"
    and "\<And>i. attempt \<le> i \<Longrightarrow> i < k \<Longrightarrow>
             \<exists>message. requestUrl i
                \<lparr> req_url = url, req_timeout_header = toString (m_timeout mo) \<rparr> = Inl message"
    and "requestUrl k \<lparr> req_url = url, req_timeout_header = toString (m_timeout mo) \<rparr>
           = Inr response"
  shows "fetch_loop requestUrl url mo attempt lastError n slept =
           \<lparr> outcome = Inr response,
             calls = n + (Suc k - attempt),
             sleeps = slept @ replicate (k - attempt) (m_retryDelay mo) \<rparr>"
  using assms
proof (induction requestUrl url mo attempt lastError n slept rule: fetch_loop.induct)
  case (1 requestUrl url mo attempt lastError n slept)
  from "1.prems"(1,2) have le: "attempt \<le> m_maxRetries mo" by simp
  show ?case
  proof (cases "attempt = k")
    case True
    with "1.prems"(4) le show ?thesis
      by (subst fetch_loop.simps) simp
  next
    case False
    with "1.prems"(1) have lt: "attempt < k" by simp
    from "1.prems"(3)[of attempt] lt obtain message where
      here: "requestUrl attempt
               \<lparr> req_url = url, req_timeout_header = toString (m_timeout mo) \<rparr> = Inl message"
      by auto
    have later: "\<And>i. Suc attempt \<le> i \<Longrightarrow> i < k \<Longrightarrow>
             \<exists>message. requestUrl i
                \<lparr> req_url = url, req_timeout_header = toString (m_timeout mo) \<rparr> = Inl message"
      using "1.prems"(3) by simp
    from lt have "Suc attempt \<le> k" by simp
    note IH = "1.IH"[OF le here this "1.prems"(2) later "1.prems"(4)]
    from lt have "replicate (k - attempt) (m_retryDelay mo) =
                 m_retryDelay mo # replicate (k - Suc attempt) (m_retryDelay mo)"
      by (cases "k - attempt") (auto simp: Suc_diff_Suc)
    moreover from lt "1.prems"(2) have "attempt < m_maxRetries mo" by simp
    ultimately show ?thesis using le here IH lt
      by (subst fetch_loop.simps) (simp add: Suc_diff_le)
  qed
qed

text \<open>
  Claim C3. When every attempt of \<open>fetchContent\<close> rejects, the transport is called exactly
  \<open>maxRetries + 1\<close> times, \<open>retryDelay\<close> is slept once between each two consecutive
  attempts (\<open>maxRetries\<close> times in all), and the call throws an error whose \<open>url\<close> is the
  original URL: \<open>TimeoutError(url, timeout)\<close> when the message of the last rejection
  includes \<open>timeout\<close>, and otherwise a \<open>NetworkError\<close> whose message text includes the
  message of the last rejection. The \<open>NetworkError\<close> is built from that message, and from
  the words \<open>Unknown network error\<close> when that message is empty.
\<close>

theorem fetchContent_exhaustion:
  assumes "\<And>i. i \<le> m_maxRetries (mergeFetchOptions options) \<Longrightarrow>
             requestUrl i
               \<lparr> req_url = url,
                 req_timeout_header = toString (m_timeout (mergeFetchOptions options)) \<rparr>
             = Inl (message i)"
  shows "calls (fetchContent_run requestUrl url options)
           = m_maxRetries (mergeFetchOptions options) + 1 \<and>
         sleeps (fetchContent_run requestUrl url options)
           = replicate (m_maxRetries (mergeFetchOptions options))
               (m_retryDelay (mergeFetchOptions options)) \<and>
         (\<exists>e. fetchContent requestUrl url options = Inl e \<and> error_url e = Some url \<and>
            (if str_includes (message (m_maxRetries (mergeFetchOptions options))) ''timeout''
             then e = TimeoutError url (m_timeout (mergeFetchOptions options))
             else e = NetworkError
                        (if message (m_maxRetries (mergeFetchOptions options)) = []
                         then ''Unknown network error''
                         else message (m_maxRetries (mergeFetchOptions options))) url \<and>
                  str_includes (error_message e)
                    (message (m_maxRetries (mergeFetchOptions options)))))"
proof -
  let ?mo = "mergeFetchOptions options"
  have run: "fetchContent_run requestUrl url options =
           \<lparr> outcome = Inl (Some (message (m_maxRetries ?mo))),
             calls = Suc (m_maxRetries ?mo),
             sleeps = replicate (m_maxRetries ?mo) (m_retryDelay ?mo) \<rparr>"
    unfolding fetchContent_run_def
    using fetch_loop_all_fail[of 0 ?mo requestUrl url message None 0 "[]"] assms by simp
  have carried: "str_includes (error_message (NetworkError m url)) m" for m
    using str_includes_suffix[of "NetworkError_prefix @ url @ '': ''" m] by simp
  from run show ?thesis
    by (simp add: fetchContent_def carried str_includes_empty del: error_message.simps)
qed

theorem fetchContent_exhaustion_witness:
  "calls (fetchContent_run (transport_failing ''Persistent network error'') example_url
            default_FetchOptions) = 3 \<and>
   sleeps (fetchContent_run (transport_failing ''Persistent network error'') example_url
             default_FetchOptions) = [1000, 1000] \<and>
   fetchContent (transport_failing ''Persistent network error'') example_url
     default_FetchOptions = Inl (NetworkError ''Persistent network error'' example_url) \<and>
   fetchContent (transport_failing ''timeout'') example_url default_FetchOptions
     = Inl (TimeoutError example_url 10000)"
proof -
  have h: "\<And>i. i \<le> m_maxRetries (mergeFetchOptions default_FetchOptions) \<Longrightarrow>
             transport_failing m i
               \<lparr> req_url = example_url,
                 req_timeout_header =
                   toString (m_timeout (mergeFetchOptions default_FetchOptions)) \<rparr>
             = Inl ((\<lambda>i. m) i)" for m
    by (simp add: transport_failing_def)
  have o: "mergeFetchOptions default_FetchOptions =
             \<lparr> m_timeout = 10000, m_maxRetries = 2, m_retryDelay = 1000 \<rparr>"
    by (simp add: mergeFetchOptions_def default_FetchOptions_def)
  from fetchContent_exhaustion[of default_FetchOptions
         "transport_failing ''Persistent network error''" example_url
         "\<lambda>i. ''Persistent network error''", OF h]
       fetchContent_exhaustion[of default_FetchOptions
         "transport_failing ''timeout''" example_url "\<lambda>i. ''timeout''", OF h]
  show ?thesis
    by (simp add: o numeral_2_eq_2 numeral_3_eq_3)
qed

text \<open>
  Claim C8. \<open>fetchContent\<close> returns the response of the first attempt that does not
  reject, whatever its status code, and calls the transport no more: when the attempts
  before attempt \<open>k\<close> reject and attempt \<open>k\<close>, one of the \<open>maxRetries + 1\<close> attempts,
  answers with \<open>response\<close>, the result is \<open>response\<close> and the transport has been called
  \<open>k + 1\<close> times.
\<close>

theorem fetchContent_first_success:
  assumes "k \<le> m_maxRetries (mergeFetchOptions options)"
    and "\<And>i. i < k \<Longrightarrow>
           \<exists>message. requestUrl i
             \<lparr> req_url = url,
               req_timeout_header = toString (m_timeout (mergeFetchOptions options)) \<rparr>
             = Inl message"
    and "requestUrl k
           \<lparr> req_url = url,
             req_timeout_header = toString (m_timeout (mergeFetchOptions options)) \<rparr>
         = Inr response"
  shows "fetchContent requestUrl url options = Inr response \<and>
         calls (fetchContent_run requestUrl url options) = k + 1 \<and>
         sleeps (fetchContent_run requestUrl url options)
           = replicate k (m_retryDelay (mergeFetchOptions options))"
proof -
  let ?mo = "mergeFetchOptions options"
  have "fetchContent_run requestUrl url options =
           \<lparr> outcome = Inr response, calls = Suc k,
             sleeps = replicate k (m_retryDelay ?mo) \<rparr>"
    unfolding fetchContent_run_def
    using fetch_loop_first_success[of 0 k ?mo requestUrl url response None 0 "[]"] assms
    by simp
  then show ?thesis
    by (simp add: fetchContent_def)
qed

theorem fetchContent_first_success_witness:
  "fetchContent transport_second_404 example_url default_FetchOptions
     = Inr \<lparr> status = 404, response_text = ''Not Found'' \<rparr> \<and>
   calls (fetchContent_run transport_second_404 example_url default_FetchOptions) = 2 \<and>
   sleeps (fetchContent_run transport_second_404 example_url default_FetchOptions) = [1000]"
proof -
  have o: "mergeFetchOptions default_FetchOptions =
             \<lparr> m_timeout = 10000, m_maxRetries = 2, m_retryDelay = 1000 \<rparr>"
    by (simp add: mergeFetchOptions_def default_FetchOptions_def)
  have k: "1 \<le> m_maxRetries (mergeFetchOptions default_FetchOptions)"
    by (simp add: o)
  have before: "\<And>i. i < 1 \<Longrightarrow>
           \<exists>message. transport_second_404 i
             \<lparr> req_url = example_url,
               req_timeout_header =
                 toString (m_timeout (mergeFetchOptions default_FetchOptions)) \<rparr>
             = Inl message"
    by (simp add: transport_second_404_def)
  have at: "transport_second_404 1
           \<lparr> req_url = example_url,
             req_timeout_header =
               toString (m_timeout (mergeFetchOptions default_FetchOptions)) \<rparr>
         = Inr \<lparr> status = 404, response_text = ''Not Found'' \<rparr>"
    by (simp add: transport_second_404_def)
  from fetchContent_first_success[of 1 default_FetchOptions transport_second_404 example_url
         "\<lparr> status = 404, response_text = ''Not Found'' \<rparr>", OF k before at]
  show ?thesis
    by (simp add: o)
qed


section \<open>The parser\<close>

lemmas example_page_defs = example_url_def og_title_html_def og_title_document_def
  twitter_image_html_def twitter_image_document_def icon_link_html_def icon_link_document_def
  shortcut_icon_html_def shortcut_icon_document_def two_icon_links_html_def
  two_icon_links_document_def example_platform_def

text \<open>How the values of the three attributes in the selectors of the strategies compare.\<close>

lemma property_value_matches: "attribute_value_matches ''property'' w v = (w = v)"
  by (simp add: attribute_value_matches_def case_insensitive_attributes_def)

lemma name_value_matches: "attribute_value_matches ''name'' w v = (w = v)"
  by (simp add: attribute_value_matches_def case_insensitive_attributes_def)

lemma rel_value_matches:
  "attribute_value_matches ''rel'' w v = (toLowerCase w = toLowerCase v)"
  by (simp add: attribute_value_matches_def case_insensitive_attributes_def)

lemmas selector_defs = property_value_matches name_value_matches rel_value_matches
  toLowerCase_def toLowerCase_char_def

lemmas parser_defs = MetadataParser_parse_def MetadataParser_new_def registerStrategy_def
  OpenGraphStrategy_parse_def TwitterCardStrategy_parse_def StandardHTMLStrategy_parse_def
  StandardHTMLStrategy_title_def getFavicon_def default_favicon_def content_of_def
  querySelector_def getAttribute_def Object_assign_def cleanMetadata_def clean_field_def
  getProp_def result_prop_def Let_def selector_defs

text \<open>With a URL that \<open>new URL\<close> accepts, \<open>getFavicon\<close> returns a string.\<close>

lemma getFavicon_valid:
  assumes "new_URL P url = Inr u"
  shows "getFavicon P htmlDoc url =
     Inr (case querySelector htmlDoc
                 [TagAttr ''link'' ''rel'' ''icon'', TagAttr ''link'' ''rel'' ''shortcut icon''] of
            None \<Rightarrow> origin u @ ''/favicon.ico''
          | Some link \<Rightarrow>
              (case getAttribute link ''href'' of
                 None \<Rightarrow> origin u @ ''/favicon.ico''
               | Some href \<Rightarrow>
                   if href = [] then origin u @ ''/favicon.ico''
                   else if startsWith href ''/'' then origin u @ href else href))"
  using assms by (simp add: getFavicon_def default_favicon_def split: option.splits)

lemma clean_field_other: "f' \<noteq> f \<Longrightarrow> clean_field m f f' = m f'"
  by (simp add: clean_field_def split: jsval.splits)

lemma cleanMetadata_other:
  "f \<noteq> Title \<Longrightarrow> f \<noteq> Description \<Longrightarrow> cleanMetadata m f = m f"
  by (simp add: cleanMetadata_def clean_field_other)

text \<open>
  The loop over the three registered strategies, unfolded: the result of each strategy is
  laid over what came before, with all of its keys.
\<close>

lemma apply_default_strategies:
  assumes "new_URL P url = Inr u"
  shows "\<exists>favicon. getFavicon P (parseFromString P htmlContent) url = Inr favicon \<and>
     apply_strategies P MetadataParser_new url htmlContent metadata =
     Inr (metadata
          ++ [Title \<mapsto> content_of (parseFromString P htmlContent)
                           (TagAttr ''meta'' ''property'' ''og:title''),
              Description \<mapsto> content_of (parseFromString P htmlContent)
                           (TagAttr ''meta'' ''property'' ''og:description''),
              Image \<mapsto> content_of (parseFromString P htmlContent)
                           (TagAttr ''meta'' ''property'' ''og:image''),
              SiteName \<mapsto> content_of (parseFromString P htmlContent)
                           (TagAttr ''meta'' ''property'' ''og:site_name'')]
          ++ [Title \<mapsto> content_of (parseFromString P htmlContent)
                           (TagAttr ''meta'' ''name'' ''twitter:title''),
              Description \<mapsto> content_of (parseFromString P htmlContent)
                           (TagAttr ''meta'' ''name'' ''twitter:description''),
              Image \<mapsto> content_of (parseFromString P htmlContent)
                           (TagAttr ''meta'' ''name'' ''twitter:image'')]
          ++ [Title \<mapsto> StandardHTMLStrategy_title (parseFromString P htmlContent),
              Description \<mapsto> content_of (parseFromString P htmlContent)
                           (TagAttr ''meta'' ''name'' ''description''),
              Favicon \<mapsto> Str favicon])"
proof -
  from getFavicon_valid[OF assms, of "parseFromString P htmlContent"]
  obtain favicon where "getFavicon P (parseFromString P htmlContent) url = Inr favicon"
    by blast
  then show ?thesis
    by (simp add: MetadataParser_new_def registerStrategy_def OpenGraphStrategy_parse_def
        TwitterCardStrategy_parse_def StandardHTMLStrategy_parse_def Object_assign_def Let_def)
qed

text \<open>No strategy and no later step of \<open>parse\<close> gives the record a \<open>localImage\<close>.\<close>

lemma parse_no_localImage:
  assumes "MetadataParser_parse P MetadataParser_new url htmlContent = Inr parsed"
  shows "parsed LocalImage = None"
proof -
  from assms obtain u where u: "new_URL P url = Inr u"
    by (cases "new_URL P url") (auto simp: MetadataParser_parse_def)
  from apply_default_strategies[OF u, of htmlContent
         "[Url \<mapsto> Str url, Host \<mapsto> Str (hostname u), Indent \<mapsto> Num 0]"]
  obtain merged where
    ap: "apply_strategies P MetadataParser_new url htmlContent
               [Url \<mapsto> Str url, Host \<mapsto> Str (hostname u), Indent \<mapsto> Num 0] = Inr merged"
    and ml: "merged LocalImage = None"
    by auto
  from assms u ap have "parsed = (if \<not> truthy (getProp (cleanMetadata merged) Title)
                     then (cleanMetadata merged)(Title \<mapsto> Str url)
                     else cleanMetadata merged)"
    by (simp add: MetadataParser_parse_def Let_def)
  with ml show ?thesis by (simp add: cleanMetadata_other)
qed

text \<open>
  The title that \<open>parse\<close> returns is decided by the standard strategy alone, which runs
  last and always has a \<open>title\<close> key: it is the cleaned text of \<open><title>\<close> or, failing
  that, of the first \<open><h1>\<close>, and the URL when neither gives a text. The titles of the
  Open Graph and Twitter strategies never reach the result.
\<close>

lemma parse_title_from_standard_strategy:
  assumes "new_URL P url = Inr u"
  shows "result_prop (MetadataParser_parse P MetadataParser_new url htmlContent) Title =
       Inr (case StandardHTMLStrategy_title (parseFromString P htmlContent) of
              Str s \<Rightarrow> if s \<noteq> [] \<and> clean_string s \<noteq> [] then Str (clean_string s) else Str url
            | Undefined \<Rightarrow> Str url
            | Num n \<Rightarrow> Str url)"
proof -
  from apply_default_strategies[OF assms, of htmlContent
         "[Url \<mapsto> Str url, Host \<mapsto> Str (hostname u), Indent \<mapsto> Num 0]"]
  obtain merged where
    ap: "apply_strategies P MetadataParser_new url htmlContent
               [Url \<mapsto> Str url, Host \<mapsto> Str (hostname u), Indent \<mapsto> Num 0] = Inr merged"
    and mt: "merged Title = Some (StandardHTMLStrategy_title (parseFromString P htmlContent))"
    by auto
  have nonum: "StandardHTMLStrategy_title d \<noteq> Num n" for d n
    by (auto simp: StandardHTMLStrategy_title_def Let_def split: option.splits)
  have ct: "cleanMetadata merged Title = clean_field merged Title Title"
    by (simp add: cleanMetadata_def clean_field_other)
  have "MetadataParser_parse P MetadataParser_new url htmlContent =
     Inr (if \<not> truthy (getProp (cleanMetadata merged) Title)
          then (cleanMetadata merged)(Title \<mapsto> Str url)
          else cleanMetadata merged)"
    using assms ap by (simp add: MetadataParser_parse_def Let_def)
  moreover have "getProp (if \<not> truthy (getProp (cleanMetadata merged) Title)
                     then (cleanMetadata merged)(Title \<mapsto> Str url)
                     else cleanMetadata merged) Title =
       (case StandardHTMLStrategy_title (parseFromString P htmlContent) of
          Str s \<Rightarrow> if s \<noteq> [] \<and> clean_string s \<noteq> [] then Str (clean_string s) else Str url
        | Undefined \<Rightarrow> Str url
        | Num n \<Rightarrow> Str url)"
    using mt nonum[of "parseFromString P htmlContent"]
    by (cases "StandardHTMLStrategy_title (parseFromString P htmlContent)")
       (auto simp: getProp_def ct clean_field_def)
  ultimately show ?thesis by (simp add: result_prop_def)
qed

text \<open>
  Claim C1, at the input of the claim. For the page
  \<open><meta property='og:title' content='A'>\<close>, which has no \<open>twitter:title\<close>, no
  \<open><title>\<close> and no \<open><h1>\<close>, and the URL \<open>https://example.com\<close>, \<open>parse\<close> returns
  the title \<open>https://example.com\<close>: the Twitter and the standard strategy each return a
  \<open>title\<close> key holding \<open>undefined\<close>, which \<open>Object.assign\<close> copies over the Open Graph
  title, so that the URL fallback applies.
\<close>

theorem parse_og_title_overwritten:
  "result_prop (MetadataParser_parse example_platform MetadataParser_new example_url
                  og_title_html) Title
     = Inr (Str ''https://example.com'')"
  by (simp add: example_page_defs parser_defs)

text \<open>
  The first element that satisfies a test is what \<open>find\<close> returns.
\<close>

lemma find_first:
  "\<forall>e\<in>set before. \<not> Q e \<Longrightarrow> Q link \<Longrightarrow> find Q (before @ link # after) = Some link"
  by (induction before) auto

lemma find_none: "\<forall>e\<in>set xs. \<not> Q e \<Longrightarrow> find Q xs = None"
  by (induction xs) auto

text \<open>
  What the selector list \<open>link[rel='icon'], link[rel='shortcut icon']\<close> matches: a
  \<open>link\<close> element whose \<open>rel\<close>, in lower case, is \<open>icon\<close> or \<open>shortcut icon\<close>.
\<close>

lemma icon_selector_matches:
  "list_ex (matches e)
     [TagAttr ''link'' ''rel'' ''icon'', TagAttr ''link'' ''rel'' ''shortcut icon''] =
   (localName e = ''link'' \<and>
    (\<exists>r. map_of (attributes e) ''rel'' = Some r \<and>
         (toLowerCase r = ''icon'' \<or> toLowerCase r = ''shortcut icon'')))"
proof -
  have l: "toLowerCase ''icon'' = ''icon''" "toLowerCase ''shortcut icon'' = ''shortcut icon''"
    by (simp_all add: toLowerCase_def toLowerCase_char_def)
  show ?thesis
    by (cases "map_of (attributes e) ''rel''")
       (auto simp: getAttribute_def rel_value_matches l)
qed

text \<open>
  Claim C10 does not hold as it is stated: on a page whose first icon link has no \<open>href\<close>
  and whose second icon link has the \<open>href\<close> \<open>/b.png\<close>, a link with an \<open>href\<close>
  exists, and yet \<open>parse\<close> returns the origin followed by \<open>/favicon.ico\<close>, because
  \<open>querySelector\<close> gives the first matching element only.
\<close>

theorem later_icon_href_ignored:
  "result_prop (MetadataParser_parse example_platform MetadataParser_new example_url
                  two_icon_links_html) Favicon
     = Inr (Str ''https://example.com/favicon.ico'')"
  by (simp add: example_page_defs parser_defs)

text \<open>
  Claim C10, amended. For a URL that \<open>new URL\<close> accepts and any page, \<open>parse\<close> returns a
  record whose \<open>favicon\<close> is a string, so that it is never absent. An icon link is a
  \<open>link\<close> element whose \<open>rel\<close> is \<open>icon\<close> or \<open>shortcut icon\<close> in any mix of upper
  and lower case.
  \<^item> When the page has no icon link, the favicon is the origin followed by
    \<open>/favicon.ico\<close>.
  \<^item> Otherwise the first icon link of the page decides, whatever comes after it: when its
    \<open>href\<close> is missing or empty the favicon is the origin followed by \<open>/favicon.ico\<close>;
    when its \<open>href\<close> starts with \<open>/\<close> the favicon is the origin followed by the
    \<open>href\<close>; in all other cases it is the \<open>href\<close>.
\<close>

theorem parse_favicon_defined:
  assumes "new_URL P url = Inr u"
  shows
    "(\<exists>s. result_prop (MetadataParser_parse P MetadataParser_new url htmlContent) Favicon
            = Inr (Str s)) \<and>
     ((\<forall>e\<in>set (parseFromString P htmlContent).
          \<not> (localName e = ''link'' \<and>
             (\<exists>r. map_of (attributes e) ''rel'' = Some r \<and>
                  (toLowerCase r = ''icon'' \<or> toLowerCase r = ''shortcut icon'')))) \<longrightarrow>
        result_prop (MetadataParser_parse P MetadataParser_new url htmlContent) Favicon
          = Inr (Str (origin u @ ''/favicon.ico''))) \<and>
     (\<forall>before link after.
        parseFromString P htmlContent = before @ link # after \<and>
        (\<forall>e\<in>set before.
           \<not> (localName e = ''link'' \<and>
              (\<exists>r. map_of (attributes e) ''rel'' = Some r \<and>
                   (toLowerCase r = ''icon'' \<or> toLowerCase r = ''shortcut icon'')))) \<and>
        localName link = ''link'' \<and>
        (\<exists>r. map_of (attributes link) ''rel'' = Some r \<and>
             (toLowerCase r = ''icon'' \<or> toLowerCase r = ''shortcut icon'')) \<longrightarrow>
        result_prop (MetadataParser_parse P MetadataParser_new url htmlContent) Favicon
          = Inr (Str (case map_of (attributes link) ''href'' of
                        None \<Rightarrow> origin u @ ''/favicon.ico''
                      | Some href \<Rightarrow>
                          if href = [] then origin u @ ''/favicon.ico''
                          else if hd href = CHR ''/'' then origin u @ href
                          else href)))"
proof -
  let ?doc = "parseFromString P htmlContent"
  let ?sel = "[TagAttr ''link'' ''rel'' ''icon'', TagAttr ''link'' ''rel'' ''shortcut icon'']"
  from apply_default_strategies[OF assms, of htmlContent
         "[Url \<mapsto> Str url, Host \<mapsto> Str (hostname u), Indent \<mapsto> Num 0]"]
  obtain favicon merged where
    fav: "getFavicon P ?doc url = Inr favicon"
    and ap: "apply_strategies P MetadataParser_new url htmlContent
               [Url \<mapsto> Str url, Host \<mapsto> Str (hostname u), Indent \<mapsto> Num 0] = Inr merged"
    and mf: "merged Favicon = Some (Str favicon)"
    by auto
  have "getProp (cleanMetadata merged) Favicon = Str favicon"
    using mf by (simp add: getProp_def cleanMetadata_other)
  then have "getProp (if \<not> truthy (getProp (cleanMetadata merged) Title)
                     then (cleanMetadata merged)(Title \<mapsto> Str url)
                     else cleanMetadata merged) Favicon = Str favicon"
    by (simp add: getProp_def)
  moreover have "MetadataParser_parse P MetadataParser_new url htmlContent =
     Inr (if \<not> truthy (getProp (cleanMetadata merged) Title)
          then (cleanMetadata merged)(Title \<mapsto> Str url)
          else cleanMetadata merged)"
    using assms ap by (simp add: MetadataParser_parse_def Let_def)
  ultimately have res:
    "result_prop (MetadataParser_parse P MetadataParser_new url htmlContent) Favicon
       = Inr (Str favicon)"
    by (simp add: result_prop_def)
  have starts: "startsWith href ''/'' = (hd href = CHR ''/'')" if "href \<noteq> []" for href
    using that by (cases href) auto
  have none: "favicon = origin u @ ''/favicon.ico''"
    if "\<forall>e\<in>set ?doc. \<not> list_ex (matches e) ?sel"
  proof -
    from that have "querySelector ?doc ?sel = None"
      unfolding querySelector_def by (rule find_none)
    with fav getFavicon_valid[OF assms, of ?doc] show ?thesis by simp
  qed
  have first: "favicon = (case map_of (attributes link) ''href'' of
                        None \<Rightarrow> origin u @ ''/favicon.ico''
                      | Some href \<Rightarrow>
                          if href = [] then origin u @ ''/favicon.ico''
                          else if hd href = CHR ''/'' then origin u @ href
                          else href)"
    if "?doc = before @ link # after" "\<forall>e\<in>set before. \<not> list_ex (matches e) ?sel"
       "list_ex (matches link) ?sel" for before link after
  proof -
    from that have "querySelector ?doc ?sel = Some link"
      unfolding querySelector_def by (simp add: find_first)
    with fav getFavicon_valid[OF assms, of ?doc] show ?thesis
      by (auto simp: getAttribute_def starts split: option.splits)
  qed
  note none' = none[unfolded icon_selector_matches]
  note first' = first[unfolded icon_selector_matches]
  have a: "\<exists>s. result_prop (MetadataParser_parse P MetadataParser_new url htmlContent) Favicon
            = Inr (Str s)"
    using res by blast
  have b: "(\<forall>e\<in>set (parseFromString P htmlContent).
          \<not> (localName e = ''link'' \<and>
             (\<exists>r. map_of (attributes e) ''rel'' = Some r \<and>
                  (toLowerCase r = ''icon'' \<or> toLowerCase r = ''shortcut icon'')))) \<longrightarrow>
        result_prop (MetadataParser_parse P MetadataParser_new url htmlContent) Favicon
          = Inr (Str (origin u @ ''/favicon.ico''))"
    using res none' by simp
  have c: "parseFromString P htmlContent = before @ link # after \<and>
        (\<forall>e\<in>set before.
           \<not> (localName e = ''link'' \<and>
              (\<exists>r. map_of (attributes e) ''rel'' = Some r \<and>
                   (toLowerCase r = ''icon'' \<or> toLowerCase r = ''shortcut icon'')))) \<and>
        localName link = ''link'' \<and>
        (\<exists>r. map_of (attributes link) ''rel'' = Some r \<and>
             (toLowerCase r = ''icon'' \<or> toLowerCase r = ''shortcut icon'')) \<longrightarrow>
        result_prop (MetadataParser_parse P MetadataParser_new url htmlContent) Favicon
          = Inr (Str (case map_of (attributes link) ''href'' of
                        None \<Rightarrow> origin u @ ''/favicon.ico''
                      | Some href \<Rightarrow>
                          if href = [] then origin u @ ''/favicon.ico''
                          else if hd href = CHR ''/'' then origin u @ href
                          else href))" for before link after
  proof
    assume p: "parseFromString P htmlContent = before @ link # after \<and>
        (\<forall>e\<in>set before.
           \<not> (localName e = ''link'' \<and>
              (\<exists>r. map_of (attributes e) ''rel'' = Some r \<and>
                   (toLowerCase r = ''icon'' \<or> toLowerCase r = ''shortcut icon'')))) \<and>
        localName link = ''link'' \<and>
        (\<exists>r. map_of (attributes link) ''rel'' = Some r \<and>
             (toLowerCase r = ''icon'' \<or> toLowerCase r = ''shortcut icon''))"
    from p have p1: "parseFromString P htmlContent = before @ link # after" by (rule conjunct1)
    from p have p2: "\<forall>e\<in>set before.
           \<not> (localName e = ''link'' \<and>
              (\<exists>r. map_of (attributes e) ''rel'' = Some r \<and>
                   (toLowerCase r = ''icon'' \<or> toLowerCase r = ''shortcut icon'')))"
      by (rule conjunct2[THEN conjunct1])
    from p have p3: "localName link = ''link'' \<and>
        (\<exists>r. map_of (attributes link) ''rel'' = Some r \<and>
             (toLowerCase r = ''icon'' \<or> toLowerCase r = ''shortcut icon''))"
      by (rule conjunct2[THEN conjunct2])
    from first'[OF p1 p2 p3] res show "result_prop (MetadataParser_parse P MetadataParser_new url htmlContent) Favicon
          = Inr (Str (case map_of (attributes link) ''href'' of
                        None \<Rightarrow> origin u @ ''/favicon.ico''
                      | Some href \<Rightarrow>
                          if href = [] then origin u @ ''/favicon.ico''
                          else if hd href = CHR ''/'' then origin u @ href
                          else href))"
      by simp
  qed
  from a b c show ?thesis by blast
qed

theorem parse_favicon_defined_witness:
  "result_prop (MetadataParser_parse example_platform MetadataParser_new example_url
                  icon_link_html) Favicon
     = Inr (Str ''https://example.com/custom-favicon.png'') \<and>
   result_prop (MetadataParser_parse example_platform MetadataParser_new example_url
                  shortcut_icon_html) Favicon
     = Inr (Str ''https://example.com/a.png'') \<and>
   result_prop (MetadataParser_parse example_platform MetadataParser_new example_url
                  og_title_html) Favicon
     = Inr (Str ''https://example.com/favicon.ico'')"
proof -
  have h: "new_URL example_platform example_url
             = Inr \<lparr> origin = ''https://example.com'', hostname = ''example.com'' \<rparr>"
    by (simp add: example_platform_def)
  have icon: "parseFromString example_platform icon_link_html
                = [] @ \<lparr> localName = ''link'',
                         attributes = [(''rel'', ''icon''), (''href'', ''/custom-favicon.png'')],
                         textContent = [] \<rparr> # [] \<and>
     (\<forall>e\<in>set [].
           \<not> (localName e = ''link'' \<and>
              (\<exists>r. map_of (attributes e) ''rel'' = Some r \<and>
                   (toLowerCase r = ''icon'' \<or> toLowerCase r = ''shortcut icon'')))) \<and>
     localName \<lparr> localName = ''link'',
                 attributes = [(''rel'', ''icon''), (''href'', ''/custom-favicon.png'')],
                 textContent = [] \<rparr> = ''link'' \<and>
     (\<exists>r. map_of (attributes \<lparr> localName = ''link'',
                 attributes = [(''rel'', ''icon''), (''href'', ''/custom-favicon.png'')],
                 textContent = [] \<rparr>) ''rel'' = Some r \<and>
          (toLowerCase r = ''icon'' \<or> toLowerCase r = ''shortcut icon''))"
    by (simp add: example_page_defs toLowerCase_def toLowerCase_char_def)
  have shortcut: "parseFromString example_platform shortcut_icon_html
                = [] @ \<lparr> localName = ''link'',
                         attributes = [(''rel'', ''Shortcut Icon''), (''href'', ''/a.png'')],
                         textContent = [] \<rparr> # [] \<and>
     (\<forall>e\<in>set [].
           \<not> (localName e = ''link'' \<and>
              (\<exists>r. map_of (attributes e) ''rel'' = Some r \<and>
                   (toLowerCase r = ''icon'' \<or> toLowerCase r = ''shortcut icon'')))) \<and>
     localName \<lparr> localName = ''link'',
                 attributes = [(''rel'', ''Shortcut Icon''), (''href'', ''/a.png'')],
                 textContent = [] \<rparr> = ''link'' \<and>
     (\<exists>r. map_of (attributes \<lparr> localName = ''link'',
                 attributes = [(''rel'', ''Shortcut Icon''), (''href'', ''/a.png'')],
                 textContent = [] \<rparr>) ''rel'' = Some r \<and>
          (toLowerCase r = ''icon'' \<or> toLowerCase r = ''shortcut icon''))"
    by (simp add: example_page_defs toLowerCase_def toLowerCase_char_def)
  have none: "\<forall>e\<in>set (parseFromString example_platform og_title_html).
          \<not> (localName e = ''link'' \<and>
             (\<exists>r. map_of (attributes e) ''rel'' = Some r \<and>
                  (toLowerCase r = ''icon'' \<or> toLowerCase r = ''shortcut icon'')))"
    by (simp add: example_page_defs)
  note one = parse_favicon_defined[OF h, of icon_link_html, THEN conjunct2, THEN conjunct2,
      rule_format, OF icon]
  note two = parse_favicon_defined[OF h, of shortcut_icon_html, THEN conjunct2,
      THEN conjunct2, rule_format, OF shortcut]
  note three = parse_favicon_defined[OF h, of og_title_html, THEN conjunct2, THEN conjunct1,
      THEN mp, OF none]
  from one two three show ?thesis by simp
qed

section \<open>The cache\<close>

lemmas cache_eval_defs = MetadataCache_new_def MetadataCache_set_def MetadataCache_get_def
  getCacheKey_def trim_def toLowerCase_def toLowerCase_char_def isWhiteSpace_def
  Map_get_def Map_delete_def Map_size_def evictOldest_def Let_def

subsection \<open>The map\<close>

lemma Map_get_set_same: "Map_get (Map_set m k v) k = Some v"
  by (induction m) (auto simp: Map_get_def)

lemma Map_get_delete: "Map_get (Map_delete m k) k' = (if k' = k then None else Map_get m k')"
  by (induction m) (auto simp: Map_get_def Map_delete_def)

lemma Map_set_new: "k \<notin> fst ` set m \<Longrightarrow> Map_set m k v = m @ [(k, v)]"
  by (induction m) auto

lemma Map_set_length_present: "k \<in> fst ` set m \<Longrightarrow> length (Map_set m k v) = length m"
  by (induction m) force+

lemma Map_set_keys: "fst ` set (Map_set m k v) = insert k (fst ` set m)"
proof (induction m)
  case Nil
  then show ?case by simp
next
  case (Cons e m)
  obtain k' v' where e: "e = (k', v')" by (cases e)
  show ?case
  proof (cases "k' = k")
    case True
    with e show ?thesis by auto
  next
    case False
    with e Cons.IH show ?thesis by auto
  qed
qed

lemma Map_set_distinct: "distinct (map fst m) \<Longrightarrow> distinct (map fst (Map_set m k v))"
proof (induction m)
  case Nil
  then show ?case by simp
next
  case (Cons e m)
  obtain k' v' where e: "e = (k', v')" by (cases e)
  show ?case
  proof (cases "k' = k")
    case True
    with e Cons.prems show ?thesis by (auto simp: image_iff)
  next
    case False
    from Cons.prems e have "k' \<notin> fst ` set m" by auto
    with False have "k' \<notin> fst ` set (Map_set m k v)" by (simp add: Map_set_keys)
    moreover from Cons have "distinct (map fst (Map_set m k v))" by simp
    ultimately show ?thesis using False e by simp
  qed
qed

lemma Map_delete_length:
  "distinct (map fst m) \<Longrightarrow> k \<in> fst ` set m \<Longrightarrow> Suc (length (Map_delete m k)) = length m"
proof (induction m)
  case Nil
  then show ?case by simp
next
  case (Cons e m)
  show ?case
  proof (cases "fst e = k")
    case True
    with Cons.prems(1) have "k \<notin> fst ` set m" by auto
    then have "filter (\<lambda>e. fst e \<noteq> k) m = m" by (auto simp: filter_id_conv)
    with True show ?thesis by (simp add: Map_delete_def)
  next
    case False
    with Cons show ?thesis by (auto simp: Map_delete_def)
  qed
qed

subsection \<open>The scan for the oldest entry\<close>

lemma oldest_scan_append:
  "oldest_scan (m @ n) acc = oldest_scan n (oldest_scan m acc)"
  by (induction m acc rule: oldest_scan.induct) auto

text \<open>Once a time stamp is tracked, the scan ends with a tracked time stamp no larger.\<close>

lemma oldest_scan_Some_le:
  "\<exists>t'. snd (oldest_scan m (ok, Some t)) = Some t' \<and> t' \<le> t"
proof (induction m arbitrary: ok t)
  case Nil
  then show ?case by simp
next
  case (Cons e m)
  obtain key item where e: "e = (key, item)" by (cases e)
  show ?case
  proof (cases "timestamp item < t")
    case True
    from Cons.IH[of "Some key" "timestamp item"]
    obtain t' where "snd (oldest_scan m (Some key, Some (timestamp item))) = Some t'"
      and "t' \<le> timestamp item" by blast
    with True e show ?thesis by auto
  next
    case False
    with Cons.IH[of ok t] e show ?thesis by auto
  qed
qed

lemma oldest_scan_bound:
  assumes "m \<noteq> []" "\<forall>e\<in>set m. timestamp (snd e) \<le> t"
  shows "\<exists>t'. snd (oldest_scan m (None, None)) = Some t' \<and> t' \<le> t"
proof -
  from assms(1) obtain key item rest where m: "m = (key, item) # rest"
    by (cases m) auto
  from oldest_scan_Some_le[of rest "Some key" "timestamp item"]
  obtain t' where "snd (oldest_scan rest (Some key, Some (timestamp item))) = Some t'"
    and "t' \<le> timestamp item" by blast
  moreover from assms(2) m have "timestamp item \<le> t" by simp
  ultimately show ?thesis using m by auto
qed

text \<open>The key that the scan ends with is the key it started with or the key of an entry.\<close>

lemma oldest_scan_key:
  "fst (oldest_scan m (ok, ts)) = Some k' \<Longrightarrow> k' \<in> fst ` set m \<or> ok = Some k'"
proof (induction m arbitrary: ok ts)
  case Nil
  then show ?case by simp
next
  case (Cons e m)
  obtain key item where e: "e = (key, item)" by (cases e)
  show ?case
  proof (cases "case ts of None \<Rightarrow> True | Some t \<Rightarrow> timestamp item < t")
    case True
    with Cons.prems e have "fst (oldest_scan m (Some key, Some (timestamp item))) = Some k'"
      by simp
    from Cons.IH[OF this] e show ?thesis by auto
  next
    case False
    with Cons.prems e have "fst (oldest_scan m (ok, ts)) = Some k'" by simp
    from Cons.IH[OF this] show ?thesis by auto
  qed
qed

lemma oldest_scan_stays:
  "\<forall>e\<in>set ys. \<not> timestamp (snd e) < t \<Longrightarrow> oldest_scan ys (ok, Some t) = (ok, Some t)"
  by (induction ys) (auto split: prod.splits)

lemma oldest_scan_snd_cases:
  "snd (oldest_scan xs (ok, ts)) = ts \<or>
   (\<exists>e\<in>set xs. snd (oldest_scan xs (ok, ts)) = Some (timestamp (snd e)))"
proof (induction xs arbitrary: ok ts)
  case Nil
  then show ?case by simp
next
  case (Cons e xs)
  obtain key item where e: "e = (key, item)" by (cases e)
  show ?case
  proof (cases "case ts of None \<Rightarrow> True | Some t \<Rightarrow> timestamp item < t")
    case True
    with Cons.IH[of "Some key" "Some (timestamp item)"] e show ?thesis by auto
  next
    case False
    with Cons.IH[of ok ts] e show ?thesis by auto
  qed
qed

text \<open>An entry whose time stamp is below all others is the one the scan finds.\<close>

lemma oldest_scan_unique_minimum:
  assumes "(k, it) \<in> set m"
    and "\<forall>e\<in>set m. e \<noteq> (k, it) \<longrightarrow> timestamp it < timestamp (snd e)"
  shows "fst (oldest_scan m (None, None)) = Some k"
proof -
  from split_list_first[OF assms(1)]
  obtain xs ys where m: "m = xs @ (k, it) # ys" and first: "(k, it) \<notin> set xs"
    by blast
  obtain ok ts where acc: "oldest_scan xs (None, None) = (ok, ts)"
    by (cases "oldest_scan xs (None, None)")
  have less: "case ts of None \<Rightarrow> True | Some t \<Rightarrow> timestamp it < t"
  proof (cases ts)
    case None
    then show ?thesis by simp
  next
    case (Some t)
    with oldest_scan_snd_cases[of xs None None] acc
    obtain e where e: "e \<in> set xs" "t = timestamp (snd e)" by auto
    from e first have "e \<noteq> (k, it)" by auto
    with e assms(2) m Some show ?thesis by auto
  qed
  have "\<forall>e\<in>set ys. \<not> timestamp (snd e) < timestamp it"
    using assms(2) m by (auto simp: not_less)
  from oldest_scan_stays[OF this]
  have "oldest_scan ys (Some k, Some (timestamp it)) = (Some k, Some (timestamp it))" .
  with m acc less show ?thesis by (simp add: oldest_scan_append)
qed

subsection \<open>Eviction\<close>

text \<open>
  A new entry, appended behind entries that are not younger than it, is not the one that
  \<open>evictOldest\<close> deletes.
\<close>

lemma evict_keeps_new:
  assumes "m \<noteq> []" "\<forall>e\<in>set m. timestamp (snd e) \<le> timestamp v" "k \<notin> fst ` set m"
  shows "Map_get (evictOldest (m @ [(k, v)])) k = Some v"
proof -
  from oldest_scan_bound[OF assms(1,2)] obtain t' where
    t': "snd (oldest_scan m (None, None)) = Some t'" "t' \<le> timestamp v" by blast
  obtain ok where acc: "oldest_scan m (None, None) = (ok, Some t')"
    using t'(1) by (cases "oldest_scan m (None, None)") auto
  have scan: "fst (oldest_scan (m @ [(k, v)]) (None, None)) = ok"
    using acc t'(2) by (simp add: oldest_scan_append)
  have key_in: "ok = Some k' \<Longrightarrow> k' \<in> fst ` set m" for k'
    using oldest_scan_key[of m None None k'] acc by simp
  have get: "Map_get (m @ [(k, v)]) k = Some v"
    using assms(3) by (induction m) (auto simp: Map_get_def)
  show ?thesis
  proof (cases ok)
    case None
    with scan show ?thesis by (simp add: evictOldest_def get)
  next
    case (Some k')
    with key_in have "k' \<in> fst ` set m" by simp
    with assms(3) have "k \<noteq> k'" by auto
    with scan Some show ?thesis by (simp add: evictOldest_def get Map_get_delete)
  qed
qed

text \<open>
  When the entry with the smallest time stamp has a key that is not the empty string,
  \<open>evictOldest\<close> deletes exactly that entry.
\<close>

lemma evictOldest_unique_minimum:
  assumes "(k, it) \<in> set m"
    and "\<forall>e\<in>set m. e \<noteq> (k, it) \<longrightarrow> timestamp it < timestamp (snd e)"
    and "k \<noteq> []"
  shows "evictOldest m = Map_delete m k"
  using oldest_scan_unique_minimum[OF assms(1,2)] assms(3) by (simp add: evictOldest_def)

text \<open>
  What \<open>set\<close> does above capacity when the time stamps after the insertion are pairwise
  distinct and the oldest entry has a key that is not empty: that entry, and only it, is
  gone.
\<close>

lemma set_evicts_oldest:
  assumes "distinct (map fst (cache c))"
    and "Map_size (Map_set (cache c) (getCacheKey url)
                     \<lparr> data = m, timestamp = now, expiry = now + ttl c \<rparr>) > maxItems c"
    and "(k, it) \<in> set (Map_set (cache c) (getCacheKey url)
                     \<lparr> data = m, timestamp = now, expiry = now + ttl c \<rparr>)"
    and "\<forall>e\<in>set (Map_set (cache c) (getCacheKey url)
                     \<lparr> data = m, timestamp = now, expiry = now + ttl c \<rparr>).
           e \<noteq> (k, it) \<longrightarrow> timestamp it < timestamp (snd e)"
    and "k \<noteq> []"
  shows "cache (MetadataCache_set c now url m) =
           Map_delete (Map_set (cache c) (getCacheKey url)
                     \<lparr> data = m, timestamp = now, expiry = now + ttl c \<rparr>) k \<and>
         Map_size (cache (MetadataCache_set c now url m)) =
           Map_size (Map_set (cache c) (getCacheKey url)
                     \<lparr> data = m, timestamp = now, expiry = now + ttl c \<rparr>) - 1 \<and>
         Map_get (cache (MetadataCache_set c now url m)) k = None"
proof -
  define m' where "m' = Map_set (cache c) (getCacheKey url)
                     \<lparr> data = m, timestamp = now, expiry = now + ttl c \<rparr>"
  from assms(1) have d: "distinct (map fst m')"
    unfolding m'_def by (rule Map_set_distinct)
  from assms(3) have kin: "k \<in> fst ` set m'"
    unfolding m'_def by (metis fst_conv image_eqI)
  have ev: "evictOldest m' = Map_delete m' k"
    using assms(3,4,5) unfolding m'_def by (rule evictOldest_unique_minimum)
  have c: "cache (MetadataCache_set c now url m) = Map_delete m' k"
    using assms(2) ev by (simp add: MetadataCache_set_def Let_def m'_def)
  moreover from Map_delete_length[OF d kin] have "Map_size (Map_delete m' k) = Map_size m' - 1"
    by (simp add: Map_size_def)
  ultimately show ?thesis
    unfolding m'_def[symmetric] by (simp add: Map_get_delete)
qed

text \<open>
  Four URLs with distinct keys, the first key not empty, stored at increasing times in a new
  cache of three items: the first is gone and the other three are returned while they live.
\<close>

lemma four_inserts_evict_first:
  assumes keys: "distinct [getCacheKey u1, getCacheKey u2, getCacheKey u3, getCacheKey u4]"
    and nonempty: "getCacheKey u1 \<noteq> []"
    and times: "t1 < t2" "t2 < t3" "t3 < t4"
    and live: "now < t2 + life"
  shows "fst (MetadataCache_get
           (MetadataCache_set (MetadataCache_set (MetadataCache_set (MetadataCache_set
              (MetadataCache_new \<lparr> opt_ttl = Some life, opt_maxItems = Some 3 \<rparr>)
              t1 u1 m1) t2 u2 m2) t3 u3 m3) t4 u4 m4) now u1) = None \<and>
         fst (MetadataCache_get
           (MetadataCache_set (MetadataCache_set (MetadataCache_set (MetadataCache_set
              (MetadataCache_new \<lparr> opt_ttl = Some life, opt_maxItems = Some 3 \<rparr>)
              t1 u1 m1) t2 u2 m2) t3 u3 m3) t4 u4 m4) now u2) = Some m2 \<and>
         fst (MetadataCache_get
           (MetadataCache_set (MetadataCache_set (MetadataCache_set (MetadataCache_set
              (MetadataCache_new \<lparr> opt_ttl = Some life, opt_maxItems = Some 3 \<rparr>)
              t1 u1 m1) t2 u2 m2) t3 u3 m3) t4 u4 m4) now u3) = Some m3 \<and>
         fst (MetadataCache_get
           (MetadataCache_set (MetadataCache_set (MetadataCache_set (MetadataCache_set
              (MetadataCache_new \<lparr> opt_ttl = Some life, opt_maxItems = Some 3 \<rparr>)
              t1 u1 m1) t2 u2 m2) t3 u3 m3) t4 u4 m4) now u4) = Some m4"
proof -
  have c: "cache (MetadataCache_set (MetadataCache_set (MetadataCache_set (MetadataCache_set
              (MetadataCache_new \<lparr> opt_ttl = Some life, opt_maxItems = Some 3 \<rparr>)
              t1 u1 m1) t2 u2 m2) t3 u3 m3) t4 u4 m4) =
           [(getCacheKey u2, \<lparr> data = m2, timestamp = t2, expiry = t2 + life \<rparr>),
            (getCacheKey u3, \<lparr> data = m3, timestamp = t3, expiry = t3 + life \<rparr>),
            (getCacheKey u4, \<lparr> data = m4, timestamp = t4, expiry = t4 + life \<rparr>)]"
    using keys nonempty times
    by (auto simp: MetadataCache_new_def MetadataCache_set_def Map_size_def evictOldest_def
          Map_delete_def Let_def)
  from c keys times live show ?thesis
    by (auto simp: MetadataCache_get_def Map_get_def Let_def)
qed

text \<open>
  The scan ends with the key and the time stamp of an entry whose time stamp is the
  smallest of the list.
\<close>

lemma oldest_scan_tracks_minimum:
  "\<exists>k t. oldest_scan m (Some k0, Some t0) = (Some k, Some t) \<and> t \<le> t0 \<and>
         (\<forall>e\<in>set m. t \<le> timestamp (snd e)) \<and>
         ((k = k0 \<and> t = t0) \<or> (\<exists>it. (k, it) \<in> set m \<and> timestamp it = t))"
proof (induction m arbitrary: k0 t0)
  case Nil
  then show ?case by simp
next
  case (Cons e m)
  obtain key item where e: "e = (key, item)" by (cases e)
  show ?case
  proof (cases "timestamp item < t0")
    case True
    from Cons.IH[of key "timestamp item"] obtain k t where
      r: "oldest_scan m (Some key, Some (timestamp item)) = (Some k, Some t)"
         "t \<le> timestamp item" "\<forall>e\<in>set m. t \<le> timestamp (snd e)"
         "(k = key \<and> t = timestamp item) \<or> (\<exists>it. (k, it) \<in> set m \<and> timestamp it = t)"
      by blast
    from r(4) e have "\<exists>it. (k, it) \<in> set (e # m) \<and> timestamp it = t" by auto
    with r(1,2,3) True e show ?thesis by auto
  next
    case False
    from Cons.IH[of k0 t0] obtain k t where
      r: "oldest_scan m (Some k0, Some t0) = (Some k, Some t)"
         "t \<le> t0" "\<forall>e\<in>set m. t \<le> timestamp (snd e)"
         "(k = k0 \<and> t = t0) \<or> (\<exists>it. (k, it) \<in> set m \<and> timestamp it = t)"
      by blast
    from r(4) have "(k = k0 \<and> t = t0) \<or> (\<exists>it. (k, it) \<in> set (e # m) \<and> timestamp it = t)"
      by auto
    with r(1,2,3) False e show ?thesis by auto
  qed
qed

lemma oldest_scan_minimum:
  assumes "m \<noteq> []"
  shows "\<exists>k it. fst (oldest_scan m (None, None)) = Some k \<and> (k, it) \<in> set m \<and>
                (\<forall>e\<in>set m. timestamp it \<le> timestamp (snd e))"
proof -
  from assms obtain key item rest where m: "m = (key, item) # rest"
    by (cases m) auto
  from oldest_scan_tracks_minimum[of rest key "timestamp item"] obtain k t where
    r: "oldest_scan rest (Some key, Some (timestamp item)) = (Some k, Some t)"
       "t \<le> timestamp item" "\<forall>e\<in>set rest. t \<le> timestamp (snd e)"
       "(k = key \<and> t = timestamp item) \<or> (\<exists>it. (k, it) \<in> set rest \<and> timestamp it = t)"
    by blast
  from r(4) m obtain it where it: "(k, it) \<in> set m" "timestamp it = t" by auto
  from r(2,3) m it(2) have "\<forall>e\<in>set m. timestamp it \<le> timestamp (snd e)" by auto
  with r(1) m it(1) show ?thesis by auto
qed

lemma Map_delete_keys: "fst ` set (Map_delete m k) \<subseteq> fst ` set m"
  by (auto simp: Map_delete_def)

lemma Map_delete_distinct: "distinct (map fst m) \<Longrightarrow> distinct (map fst (Map_delete m k))"
  by (simp add: Map_delete_def distinct_map_filter)

text \<open>
  Claim C5. Let the keys of the cache be distinct and not empty, as the keys of URLs are, and
  let the URL of the call have a key that is not empty. \<open>set\<close> stores under that key an
  entry with the time stamp \<open>now\<close> and the expiry \<open>now + ttl\<close>. When the number of
  entries is then within \<open>maxItems\<close>, nothing else changes. When it exceeds \<open>maxItems\<close>,
  exactly one entry is evicted: one whose time stamp is the smallest of the whole store (the
  only such one when the time stamps are pairwise distinct); its key is gone, every other
  key keeps its entry and the store has one entry less. In particular, four URLs with
  distinct keys stored at increasing times in a new cache of three items leave the first
  one unretrievable and the other three retrievable while they live.
\<close>

theorem set_stores_and_evicts_oldest:
  fixes c :: "'a MetadataCache" and url :: string and m :: 'a and now :: int
  defines "stored \<equiv> Map_set (cache c) (getCacheKey url)
                      \<lparr> data = m, timestamp = now, expiry = now + ttl c \<rparr>"
  assumes keys: "distinct (map fst (cache c))"
    and storable: "[] \<notin> fst ` set (cache c)" "getCacheKey url \<noteq> []"
  shows
    "Map_get stored (getCacheKey url)
       = Some \<lparr> data = m, timestamp = now, expiry = now + ttl c \<rparr> \<and>
     (Map_size stored \<le> maxItems c \<longrightarrow> cache (MetadataCache_set c now url m) = stored) \<and>
     (Map_size stored > maxItems c \<longrightarrow>
        (\<exists>k it. (k, it) \<in> set stored \<and>
           (\<forall>e\<in>set stored. timestamp it \<le> timestamp (snd e)) \<and>
           (distinct (map (\<lambda>e. timestamp (snd e)) stored) \<longrightarrow>
              (\<forall>e\<in>set stored. e \<noteq> (k, it) \<longrightarrow> timestamp it < timestamp (snd e))) \<and>
           Map_get (cache (MetadataCache_set c now url m)) k = None \<and>
           (\<forall>k'. k' \<noteq> k \<longrightarrow>
              Map_get (cache (MetadataCache_set c now url m)) k' = Map_get stored k') \<and>
           Map_size (cache (MetadataCache_set c now url m)) = Map_size stored - 1)) \<and>
     (\<forall>u1 u2 u3 u4 t1 t2 t3 t4 at life (m1::'a) m2 m3 m4.
        distinct [getCacheKey u1, getCacheKey u2, getCacheKey u3, getCacheKey u4] \<and>
        getCacheKey u1 \<noteq> [] \<and> t1 < t2 \<and> t2 < t3 \<and> t3 < t4 \<and> at < t2 + life \<longrightarrow>
        fst (MetadataCache_get
           (MetadataCache_set (MetadataCache_set (MetadataCache_set (MetadataCache_set
              (MetadataCache_new \<lparr> opt_ttl = Some life, opt_maxItems = Some 3 \<rparr>)
              t1 u1 m1) t2 u2 m2) t3 u3 m3) t4 u4 m4) at u1) = None \<and>
        fst (MetadataCache_get
           (MetadataCache_set (MetadataCache_set (MetadataCache_set (MetadataCache_set
              (MetadataCache_new \<lparr> opt_ttl = Some life, opt_maxItems = Some 3 \<rparr>)
              t1 u1 m1) t2 u2 m2) t3 u3 m3) t4 u4 m4) at u2) = Some m2 \<and>
        fst (MetadataCache_get
           (MetadataCache_set (MetadataCache_set (MetadataCache_set (MetadataCache_set
              (MetadataCache_new \<lparr> opt_ttl = Some life, opt_maxItems = Some 3 \<rparr>)
              t1 u1 m1) t2 u2 m2) t3 u3 m3) t4 u4 m4) at u3) = Some m3 \<and>
        fst (MetadataCache_get
           (MetadataCache_set (MetadataCache_set (MetadataCache_set (MetadataCache_set
              (MetadataCache_new \<lparr> opt_ttl = Some life, opt_maxItems = Some 3 \<rparr>)
              t1 u1 m1) t2 u2 m2) t3 u3 m3) t4 u4 m4) at u4) = Some m4)"
proof -
  have a: "Map_get stored (getCacheKey url)
       = Some \<lparr> data = m, timestamp = now, expiry = now + ttl c \<rparr>"
    unfolding stored_def by (rule Map_get_set_same)
  have b: "Map_size stored \<le> maxItems c \<longrightarrow> cache (MetadataCache_set c now url m) = stored"
    by (simp add: MetadataCache_set_def Let_def stored_def)
  have d: "distinct (map fst stored)"
    unfolding stored_def using keys by (rule Map_set_distinct)
  have ne: "[] \<notin> fst ` set stored"
    unfolding stored_def using storable by (simp add: Map_set_keys)
  have nonempty: "stored \<noteq> []"
    unfolding stored_def by (cases "cache c") (auto split: if_splits)
  have e: "Map_size stored > maxItems c \<longrightarrow>
        (\<exists>k it. (k, it) \<in> set stored \<and>
           (\<forall>e\<in>set stored. timestamp it \<le> timestamp (snd e)) \<and>
           (distinct (map (\<lambda>e. timestamp (snd e)) stored) \<longrightarrow>
              (\<forall>e\<in>set stored. e \<noteq> (k, it) \<longrightarrow> timestamp it < timestamp (snd e))) \<and>
           Map_get (cache (MetadataCache_set c now url m)) k = None \<and>
           (\<forall>k'. k' \<noteq> k \<longrightarrow>
              Map_get (cache (MetadataCache_set c now url m)) k' = Map_get stored k') \<and>
           Map_size (cache (MetadataCache_set c now url m)) = Map_size stored - 1)"
  proof
    assume over: "Map_size stored > maxItems c"
    from oldest_scan_minimum[OF nonempty] obtain k it where
      scan: "fst (oldest_scan stored (None, None)) = Some k"
      and mem: "(k, it) \<in> set stored"
      and least: "\<forall>e\<in>set stored. timestamp it \<le> timestamp (snd e)"
      by blast
    from mem have kin: "k \<in> fst ` set stored" by (metis fst_conv image_eqI)
    with ne have "k \<noteq> []" by metis
    with scan have "evictOldest stored = Map_delete stored k"
      by (simp add: evictOldest_def)
    with over have after: "cache (MetadataCache_set c now url m) = Map_delete stored k"
      by (simp add: MetadataCache_set_def Let_def stored_def)
    have strict: "\<forall>e\<in>set stored. e \<noteq> (k, it) \<longrightarrow> timestamp it < timestamp (snd e)"
      if dt: "distinct (map (\<lambda>e. timestamp (snd e)) stored)"
    proof (intro ballI impI)
      fix e assume e: "e \<in> set stored" "e \<noteq> (k, it)"
      from dt have inj: "inj_on (\<lambda>e. timestamp (snd e)) (set stored)"
        by (rule distinct_map[THEN iffD1, THEN conjunct2])
      have "timestamp (snd e) \<noteq> timestamp it"
      proof (rule notI)
        assume "timestamp (snd e) = timestamp it"
        then have "(\<lambda>e. timestamp (snd e)) e = (\<lambda>e. timestamp (snd e)) (k, it)" by simp
        from inj_onD[OF inj this e(1) mem] e(2)
        show False by simp
      qed
      with least e(1) show "timestamp it < timestamp (snd e)" by force
    qed
    from Map_delete_length[OF d kin]
    have size: "Map_size (Map_delete stored k) = Map_size stored - 1"
      by (simp add: Map_size_def)
    from mem least strict after size show
      "\<exists>k it. (k, it) \<in> set stored \<and>
           (\<forall>e\<in>set stored. timestamp it \<le> timestamp (snd e)) \<and>
           (distinct (map (\<lambda>e. timestamp (snd e)) stored) \<longrightarrow>
              (\<forall>e\<in>set stored. e \<noteq> (k, it) \<longrightarrow> timestamp it < timestamp (snd e))) \<and>
           Map_get (cache (MetadataCache_set c now url m)) k = None \<and>
           (\<forall>k'. k' \<noteq> k \<longrightarrow>
              Map_get (cache (MetadataCache_set c now url m)) k' = Map_get stored k') \<and>
           Map_size (cache (MetadataCache_set c now url m)) = Map_size stored - 1"
      by (intro exI[of _ k] exI[of _ it]) (simp add: Map_get_delete)
  qed
  have f: "distinct [getCacheKey u1, getCacheKey u2, getCacheKey u3, getCacheKey u4] \<and>
        getCacheKey u1 \<noteq> [] \<and> t1 < t2 \<and> t2 < t3 \<and> t3 < t4 \<and> at < t2 + life \<longrightarrow>
        fst (MetadataCache_get
           (MetadataCache_set (MetadataCache_set (MetadataCache_set (MetadataCache_set
              (MetadataCache_new \<lparr> opt_ttl = Some life, opt_maxItems = Some 3 \<rparr>)
              t1 u1 m1) t2 u2 m2) t3 u3 m3) t4 u4 m4) at u1) = None \<and>
        fst (MetadataCache_get
           (MetadataCache_set (MetadataCache_set (MetadataCache_set (MetadataCache_set
              (MetadataCache_new \<lparr> opt_ttl = Some life, opt_maxItems = Some 3 \<rparr>)
              t1 u1 m1) t2 u2 m2) t3 u3 m3) t4 u4 m4) at u2) = Some m2 \<and>
        fst (MetadataCache_get
           (MetadataCache_set (MetadataCache_set (MetadataCache_set (MetadataCache_set
              (MetadataCache_new \<lparr> opt_ttl = Some life, opt_maxItems = Some 3 \<rparr>)
              t1 u1 m1) t2 u2 m2) t3 u3 m3) t4 u4 m4) at u3) = Some m3 \<and>
        fst (MetadataCache_get
           (MetadataCache_set (MetadataCache_set (MetadataCache_set (MetadataCache_set
              (MetadataCache_new \<lparr> opt_ttl = Some life, opt_maxItems = Some 3 \<rparr>)
              t1 u1 m1) t2 u2 m2) t3 u3 m3) t4 u4 m4) at u4) = Some m4"
    for u1 u2 u3 u4 t1 t2 t3 t4 at life and m1 :: 'a and m2 m3 m4
  proof (rule impI)
    assume h: "distinct [getCacheKey u1, getCacheKey u2, getCacheKey u3, getCacheKey u4] \<and>
        getCacheKey u1 \<noteq> [] \<and> t1 < t2 \<and> t2 < t3 \<and> t3 < t4 \<and> at < t2 + life"
    from h have h1: "distinct [getCacheKey u1, getCacheKey u2, getCacheKey u3, getCacheKey u4]"
      by (rule conjunct1)
    from h have h2: "getCacheKey u1 \<noteq> []" by (rule conjunct2[THEN conjunct1])
    from h have h3: "t1 < t2" by (rule conjunct2[THEN conjunct2, THEN conjunct1])
    from h have h4: "t2 < t3" by (rule conjunct2[THEN conjunct2, THEN conjunct2, THEN conjunct1])
    from h have h5: "t3 < t4"
      by (rule conjunct2[THEN conjunct2, THEN conjunct2, THEN conjunct2, THEN conjunct1])
    from h have h6: "at < t2 + life"
      by (rule conjunct2[THEN conjunct2, THEN conjunct2, THEN conjunct2, THEN conjunct2])
    show "fst (MetadataCache_get
           (MetadataCache_set (MetadataCache_set (MetadataCache_set (MetadataCache_set
              (MetadataCache_new \<lparr> opt_ttl = Some life, opt_maxItems = Some 3 \<rparr>)
              t1 u1 m1) t2 u2 m2) t3 u3 m3) t4 u4 m4) at u1) = None \<and>
        fst (MetadataCache_get
           (MetadataCache_set (MetadataCache_set (MetadataCache_set (MetadataCache_set
              (MetadataCache_new \<lparr> opt_ttl = Some life, opt_maxItems = Some 3 \<rparr>)
              t1 u1 m1) t2 u2 m2) t3 u3 m3) t4 u4 m4) at u2) = Some m2 \<and>
        fst (MetadataCache_get
           (MetadataCache_set (MetadataCache_set (MetadataCache_set (MetadataCache_set
              (MetadataCache_new \<lparr> opt_ttl = Some life, opt_maxItems = Some 3 \<rparr>)
              t1 u1 m1) t2 u2 m2) t3 u3 m3) t4 u4 m4) at u3) = Some m3 \<and>
        fst (MetadataCache_get
           (MetadataCache_set (MetadataCache_set (MetadataCache_set (MetadataCache_set
              (MetadataCache_new \<lparr> opt_ttl = Some life, opt_maxItems = Some 3 \<rparr>)
              t1 u1 m1) t2 u2 m2) t3 u3 m3) t4 u4 m4) at u4) = Some m4"
      by (rule four_inserts_evict_first[OF h1 h2 h3 h4 h5 h6])
  qed
  show ?thesis
    apply (rule conjI, rule a)
    apply (rule conjI, rule b)
    apply (rule conjI, rule e)
    apply (intro allI)
    apply (rule f)
    done
qed

theorem set_stores_and_evicts_oldest_witness:
  "Map_get (cache (MetadataCache_set three_entry_cache 4 ''https://fourth.com''
                     (test_metadata ''https://fourth.com'' ''Fourth'')))
     ''https://first.com'' = None \<and>
   Map_size (cache (MetadataCache_set three_entry_cache 4 ''https://fourth.com''
                      (test_metadata ''https://fourth.com'' ''Fourth''))) = 3 \<and>
   fst (MetadataCache_get
          (MetadataCache_set three_entry_cache 4 ''https://fourth.com''
             (test_metadata ''https://fourth.com'' ''Fourth''))
          5 ''https://second.com'') = Some (test_metadata ''https://second.com'' ''Second'')"
proof -
  have c3: "cache three_entry_cache =
      [(''https://first.com'',
        \<lparr> data = test_metadata ''https://first.com'' ''First'', timestamp = 1, expiry = 1001 \<rparr>),
       (''https://second.com'',
        \<lparr> data = test_metadata ''https://second.com'' ''Second'', timestamp = 2,
          expiry = 1002 \<rparr>),
       (''https://third.com'',
        \<lparr> data = test_metadata ''https://third.com'' ''Third'', timestamp = 3,
          expiry = 1003 \<rparr>)]"
    by (simp add: three_entry_cache_def cache_eval_defs)
  have o: "maxItems three_entry_cache = 3" "ttl three_entry_cache = 1000"
    by (simp_all add: three_entry_cache_def MetadataCache_new_def MetadataCache_set_def Let_def)
  have k4: "getCacheKey ''https://fourth.com'' = ''https://fourth.com''"
    by (simp add: getCacheKey_def trim_def toLowerCase_def toLowerCase_char_def
          isWhiteSpace_def)
  have keys: "distinct (map fst (cache three_entry_cache))"
    by (simp add: c3)
  have storable: "[] \<notin> fst ` set (cache three_entry_cache)"
    "getCacheKey ''https://fourth.com'' \<noteq> []"
    by (simp_all add: c3 k4)
  note t = set_stores_and_evicts_oldest[OF keys storable, of
      "test_metadata ''https://fourth.com'' ''Fourth''" 4]
  have stored: "Map_set (cache three_entry_cache) (getCacheKey ''https://fourth.com'')
          \<lparr> data = test_metadata ''https://fourth.com'' ''Fourth'', timestamp = 4,
            expiry = 4 + ttl three_entry_cache \<rparr> =
      cache three_entry_cache @
      [(''https://fourth.com'',
        \<lparr> data = test_metadata ''https://fourth.com'' ''Fourth'', timestamp = 4,
          expiry = 1004 \<rparr>)]"
    by (simp add: c3 o getCacheKey_def trim_def toLowerCase_def toLowerCase_char_def
          isWhiteSpace_def)
  have over: "Map_size (Map_set (cache three_entry_cache) (getCacheKey ''https://fourth.com'')
          \<lparr> data = test_metadata ''https://fourth.com'' ''Fourth'', timestamp = 4,
            expiry = 4 + ttl three_entry_cache \<rparr>) > maxItems three_entry_cache"
    unfolding stored by (simp add: c3 o Map_size_def)
  from t[THEN conjunct2, THEN conjunct2, THEN conjunct1, THEN mp, OF over]
  obtain k it where
    mem: "(k, it) \<in> set (Map_set (cache three_entry_cache) (getCacheKey ''https://fourth.com'')
          \<lparr> data = test_metadata ''https://fourth.com'' ''Fourth'', timestamp = 4,
            expiry = 4 + ttl three_entry_cache \<rparr>)"
    and least: "\<forall>e\<in>set (Map_set (cache three_entry_cache)
                          (getCacheKey ''https://fourth.com'')
          \<lparr> data = test_metadata ''https://fourth.com'' ''Fourth'', timestamp = 4,
            expiry = 4 + ttl three_entry_cache \<rparr>). timestamp it \<le> timestamp (snd e)"
    and gone: "Map_get (cache (MetadataCache_set three_entry_cache 4 ''https://fourth.com''
                     (test_metadata ''https://fourth.com'' ''Fourth''))) k = None"
    and size: "Map_size (cache (MetadataCache_set three_entry_cache 4 ''https://fourth.com''
                     (test_metadata ''https://fourth.com'' ''Fourth''))) =
               Map_size (Map_set (cache three_entry_cache) (getCacheKey ''https://fourth.com'')
          \<lparr> data = test_metadata ''https://fourth.com'' ''Fourth'', timestamp = 4,
            expiry = 4 + ttl three_entry_cache \<rparr>) - 1"
    by blast
  from mem least have "k = ''https://first.com''"
    unfolding stored by (auto simp: c3)
  with gone have one: "Map_get (cache (MetadataCache_set three_entry_cache 4
                     ''https://fourth.com'' (test_metadata ''https://fourth.com'' ''Fourth'')))
     ''https://first.com'' = None"
    by simp
  from size have two: "Map_size (cache (MetadataCache_set three_entry_cache 4
                     ''https://fourth.com'' (test_metadata ''https://fourth.com'' ''Fourth'')))
                   = 3"
    unfolding stored by (simp add: c3 Map_size_def)
  have four: "distinct [getCacheKey ''https://first.com'', getCacheKey ''https://second.com'',
                        getCacheKey ''https://third.com'', getCacheKey ''https://fourth.com'']
              \<and> getCacheKey ''https://first.com'' \<noteq> [] \<and> (1::int) < 2 \<and> (2::int) < 3
              \<and> (3::int) < 4 \<and> (5::int) < 2 + 1000"
    by (simp add: getCacheKey_def trim_def toLowerCase_def toLowerCase_char_def
          isWhiteSpace_def)
  from t[THEN conjunct2, THEN conjunct2, THEN conjunct2, rule_format, OF four,
         of "test_metadata ''https://first.com'' ''First''"
            "test_metadata ''https://second.com'' ''Second''"
            "test_metadata ''https://third.com'' ''Third''"
            "test_metadata ''https://fourth.com'' ''Fourth''"]
  have three: "fst (MetadataCache_get
          (MetadataCache_set three_entry_cache 4 ''https://fourth.com''
             (test_metadata ''https://fourth.com'' ''Fourth''))
          5 ''https://second.com'') = Some (test_metadata ''https://second.com'' ''Second'')"
    by (simp add: three_entry_cache_def)
  from one two three show ?thesis by simp
qed

text \<open>
  The condition that the keys are not empty is needed: the scan can end with the empty key,
  the test \<open>if (oldestKey)\<close> takes it for no key, and nothing is deleted. Here a cache of
  three items is given four URLs, the first of them the blank string \<open>" "\<close>, and holds
  four entries afterwards.
\<close>

lemma blank_key_entry_is_not_evicted:
  "Map_size (cache blank_first_cache) = 4 \<and>
   maxItems blank_first_cache = 3 \<and>
   fst (MetadataCache_get blank_first_cache 5 '' '') = Some (test_metadata '' '' ''First'')"
  by (simp add: blank_first_cache_def cache_eval_defs)

text \<open>
  Through the services no such key is stored. A URL whose key is empty is blank; when
  \<open>new URL\<close> throws for every blank string, \<open>parse\<close> throws before \<open>cache.set\<close> is
  reached, and \<open>getMetadata\<close> leaves the keys of the cache distinct and not empty.
\<close>

lemma getCacheKey_empty: "getCacheKey url = [] \<longleftrightarrow> trim url = []"
  by (simp add: getCacheKey_def toLowerCase_def)

lemma evictOldest_keys: "fst ` set (evictOldest m) \<subseteq> fst ` set m"
  using Map_delete_keys[of m] by (auto simp: evictOldest_def split: option.splits)

lemma evictOldest_distinct: "distinct (map fst m) \<Longrightarrow> distinct (map fst (evictOldest m))"
  by (simp add: evictOldest_def Map_delete_distinct split: option.splits)

lemma MetadataCache_get_keeps_keys:
  assumes "distinct (map fst (cache c))" "[] \<notin> fst ` set (cache c)"
  shows "distinct (map fst (cache (snd (MetadataCache_get c now url)))) \<and>
         [] \<notin> fst ` set (cache (snd (MetadataCache_get c now url)))"
  using assms Map_delete_keys[of "cache c" "getCacheKey url"]
  by (auto simp: MetadataCache_get_def Let_def Map_delete_distinct split: option.splits)

lemma MetadataCache_set_keeps_keys:
  assumes "distinct (map fst (cache c))" "[] \<notin> fst ` set (cache c)" "getCacheKey url \<noteq> []"
  shows "distinct (map fst (cache (MetadataCache_set c now url m))) \<and>
         [] \<notin> fst ` set (cache (MetadataCache_set c now url m))"
proof -
  let ?stored = "Map_set (cache c) (getCacheKey url)
                   \<lparr> data = m, timestamp = now, expiry = now + ttl c \<rparr>"
  from assms(1) have d: "distinct (map fst ?stored)" by (rule Map_set_distinct)
  from assms(2,3) have n: "[] \<notin> fst ` set ?stored" by (simp add: Map_set_keys)
  from n evictOldest_keys[of ?stored] have "[] \<notin> fst ` set (evictOldest ?stored)" by blast
  with d n evictOldest_distinct[OF d] show ?thesis
    by (simp add: MetadataCache_set_def Let_def)
qed

lemma parse_accepts_URL:
  assumes "MetadataParser_parse P strategies url htmlContent = Inr parsed"
  shows "\<not> isl (new_URL P url)"
  using assms by (cases "new_URL P url") (auto simp: MetadataParser_parse_def)

lemma services_store_no_blank_key:
  assumes blank: "\<And>s. trim s = [] \<Longrightarrow> isl (new_URL P s)"
    and keys: "distinct (map fst (cache c))" "[] \<notin> fst ` set (cache c)"
  shows "distinct (map fst (cache (snd (LinkMetadataService_getMetadata P requestUrl save1
                                          options clk c url)))) \<and>
         [] \<notin> fst ` set (cache (snd (LinkMetadataService_getMetadata P requestUrl save1
                                        options clk c url))) \<and>
         distinct (map fst (cache (snd (MetadataService_getMetadata P requestUrl save2
                                          settings options clk c url)))) \<and>
         [] \<notin> fst ` set (cache (snd (MetadataService_getMetadata P requestUrl save2
                                        settings options clk c url)))"
proof -
  obtain cached c1 where g:
    "(if merged_enableCache options then MetadataCache_get c (now_get clk) url else (None, c))
      = (cached, c1)"
    by (cases "if merged_enableCache options then MetadataCache_get c (now_get clk) url
               else (None, c)")
  have c1: "distinct (map fst (cache c1)) \<and> [] \<notin> fst ` set (cache c1)"
  proof (cases "merged_enableCache options")
    case True
    with g have "c1 = snd (MetadataCache_get c (now_get clk) url)" by simp
    with MetadataCache_get_keeps_keys[OF keys] show ?thesis by simp
  next
    case False
    with g keys show ?thesis by simp
  qed
  have stored: "distinct (map fst (cache (MetadataCache_set c1 (now_set clk) url md))) \<and>
                [] \<notin> fst ` set (cache (MetadataCache_set c1 (now_set clk) url md))"
    if "MetadataParser_parse P MetadataParser_new url html = Inr parsed" for html parsed md
  proof -
    from parse_accepts_URL[OF that] blank have "trim url \<noteq> []" by blast
    then have "getCacheKey url \<noteq> []" by (simp add: getCacheKey_empty)
    with c1 show ?thesis by (simp add: MetadataCache_set_keeps_keys)
  qed
  show ?thesis
    using g c1 stored
    by (auto simp: LinkMetadataService_getMetadata_def MetadataService_getMetadata_def Let_def
          split: option.splits sum.splits)
qed

text \<open>
  Claim C7. \<open>get\<close> returns \<open>undefined\<close> and leaves the cache alone when the normalized key
  has no entry; when the entry exists and \<open>now \<ge> expiry\<close> it returns \<open>undefined\<close> and the
  entry is deleted. With a time to live of 100 ms, a \<open>get\<close> 150 ms after the \<open>set\<close> of the
  same URL returns \<open>undefined\<close> and leaves no entry under the key.
\<close>

theorem get_absent_or_expired:
  "(Map_get (cache c) (getCacheKey url) = None \<longrightarrow>
      MetadataCache_get c now url = (None, c)) \<and>
   (\<forall>item. Map_get (cache c) (getCacheKey url) = Some item \<and> expiry item \<le> now \<longrightarrow>
      MetadataCache_get c now url =
        (None, c\<lparr>cache := Map_delete (cache c) (getCacheKey url)\<rparr>) \<and>
      Map_get (cache (snd (MetadataCache_get c now url))) (getCacheKey url) = None) \<and>
   fst (MetadataCache_get (MetadataCache_set (c\<lparr>ttl := 100\<rparr>) t url m) (t + 150) url) = None \<and>
   Map_get (cache (snd (MetadataCache_get (MetadataCache_set (c\<lparr>ttl := 100\<rparr>) t url m)
                          (t + 150) url))) (getCacheKey url) = None"
proof -
  define c' where "c' = MetadataCache_set (c\<lparr>ttl := 100\<rparr>) t url m"
  define key where "key = getCacheKey url"
  have look: "Map_get (cache c') key = None \<or>
              Map_get (cache c') key = Some \<lparr> data = m, timestamp = t, expiry = t + 100 \<rparr>"
    by (auto simp: c'_def key_def MetadataCache_set_def Let_def evictOldest_def
          Map_get_set_same Map_get_delete split: option.splits)
  have a: "Map_get (cache c) (getCacheKey url) = None \<longrightarrow>
      MetadataCache_get c now url = (None, c)"
    by (simp add: MetadataCache_get_def)
  have b: "\<forall>item. Map_get (cache c) (getCacheKey url) = Some item \<and> expiry item \<le> now \<longrightarrow>
      MetadataCache_get c now url =
        (None, c\<lparr>cache := Map_delete (cache c) (getCacheKey url)\<rparr>) \<and>
      Map_get (cache (snd (MetadataCache_get c now url))) (getCacheKey url) = None"
    by (auto simp: MetadataCache_get_def Map_get_delete)
  have c1: "fst (MetadataCache_get c' (t + 150) url) = None"
    using look by (auto simp: MetadataCache_get_def key_def)
  have c2: "Map_get (cache (snd (MetadataCache_get c' (t + 150) url))) (getCacheKey url) = None"
    using look by (auto simp: MetadataCache_get_def key_def Map_get_delete)
  from a b c1 c2 show ?thesis unfolding c'_def by blast
qed

theorem get_absent_or_expired_witness:
  "MetadataCache_get test_cache 0 example_url = (None, test_cache) \<and>
   fst (MetadataCache_get
          (MetadataCache_set test_cache 0 example_url (test_metadata example_url ''Test Title''))
          150 example_url) = None \<and>
   cache (snd (MetadataCache_get
          (MetadataCache_set test_cache 0 example_url (test_metadata example_url ''Test Title''))
          150 example_url)) = []"
proof -
  have absent: "Map_get (cache test_cache) (getCacheKey example_url) = None"
    by (simp add: test_cache_def MetadataCache_new_def Map_get_def)
  have present:
    "Map_get (cache (MetadataCache_set test_cache 0 example_url
                       (test_metadata example_url ''Test Title''))) (getCacheKey example_url)
       = Some \<lparr> data = test_metadata example_url ''Test Title'', timestamp = 0, expiry = 100 \<rparr>
     \<and> expiry \<lparr> data = test_metadata example_url ''Test Title'', timestamp = 0,
                 expiry = 100 \<rparr> \<le> 150"
    by (simp add: test_cache_def MetadataCache_new_def MetadataCache_set_def Map_size_def
          Map_get_def Let_def)
  have stored: "cache (MetadataCache_set test_cache 0 example_url
                       (test_metadata example_url ''Test Title''))
           = [(getCacheKey example_url,
               \<lparr> data = test_metadata example_url ''Test Title'', timestamp = 0,
                 expiry = 100 \<rparr>)]"
    by (simp add: test_cache_def MetadataCache_new_def MetadataCache_set_def Map_size_def
          Let_def)
  from get_absent_or_expired[of test_cache example_url 0] absent
  have one: "MetadataCache_get test_cache 0 example_url = (None, test_cache)"
    by blast
  from get_absent_or_expired[of
         "MetadataCache_set test_cache 0 example_url (test_metadata example_url ''Test Title'')"
         example_url 150] present
  have two: "MetadataCache_get
          (MetadataCache_set test_cache 0 example_url (test_metadata example_url ''Test Title''))
          150 example_url =
        (None, (MetadataCache_set test_cache 0 example_url
                  (test_metadata example_url ''Test Title''))
               \<lparr>cache := Map_delete
                  (cache (MetadataCache_set test_cache 0 example_url
                            (test_metadata example_url ''Test Title'')))
                  (getCacheKey example_url)\<rparr>)"
    by blast
  from one two show ?thesis
    by (simp add: stored Map_delete_def)
qed

text \<open>
  Claim C6 does not hold for every cache: in a cache whose \<open>maxItems\<close> is 0 the \<open>set\<close>
  evicts the entry it has just stored, and the \<open>get\<close> that follows, under an equal
  normalized key and within the time to live, returns \<open>undefined\<close>.
\<close>

theorem zero_capacity_evicts_new_entry:
  "getCacheKey '' HTTPS://Example.com '' = getCacheKey ''https://example.com'' \<and>
   50 < 0 + ttl zero_capacity_cache \<and>
   fst (MetadataCache_get
          (MetadataCache_set zero_capacity_cache 0 '' HTTPS://Example.com ''
             (test_metadata ''https://example.com'' ''Test Title''))
          50 ''https://example.com'')
     \<noteq> Some (test_metadata ''https://example.com'' ''Test Title'')"
  by (simp add: zero_capacity_cache_def cache_eval_defs)

text \<open>
  Claim C6, amended. Let the cache have room for at least one item, hold no more than
  \<open>maxItems\<close> entries, and hold no entry stamped later than the time \<open>t\<close> of the \<open>set\<close>.
  Then for every record \<open>m\<close> and all URL strings \<open>u\<close> and \<open>u'\<close> whose trimmed,
  lower-cased forms are equal, \<open>set(u, m)\<close> at \<open>t\<close> followed by \<open>get(u')\<close> at a time
  \<open>t' < t + ttl\<close> returns \<open>m\<close>.
\<close>

theorem cache_round_trip:
  assumes keys: "getCacheKey u = getCacheKey u'"
    and fresh: "t' < t + ttl c"
    and cap: "1 \<le> maxItems c" "Map_size (cache c) \<le> maxItems c"
    and mono: "\<forall>e\<in>set (cache c). timestamp (snd e) \<le> t"
  shows "fst (MetadataCache_get (MetadataCache_set c t u m) t' u') = Some m"
proof -
  define key where "key = getCacheKey u"
  define item where "item = \<lparr> data = m, timestamp = t, expiry = t + ttl c \<rparr>"
  define m' where "m' = Map_set (cache c) key item"
  have stored: "Map_get (cache (MetadataCache_set c t u m)) key = Some item"
  proof (cases "Map_size m' > maxItems c")
    case False
    then show ?thesis
      by (simp add: MetadataCache_set_def Let_def key_def item_def m'_def Map_get_set_same)
  next
    case True
    have new: "key \<notin> fst ` set (cache c)"
    proof
      assume "key \<in> fst ` set (cache c)"
      then have "length m' = length (cache c)"
        unfolding m'_def by (rule Map_set_length_present)
      with True cap(2) show False by (simp add: Map_size_def)
    qed
    then have m': "m' = cache c @ [(key, item)]"
      unfolding m'_def by (rule Map_set_new)
    from True cap(1) m' have nonempty: "cache c \<noteq> []"
      by (auto simp: Map_size_def)
    from mono have "\<forall>e\<in>set (cache c). timestamp (snd e) \<le> timestamp item"
      by (simp add: item_def)
    from evict_keeps_new[OF nonempty this new]
    have "Map_get (evictOldest m') key = Some item" by (simp add: m')
    with True show ?thesis
      by (simp add: MetadataCache_set_def Let_def key_def item_def m'_def)
  qed
  from keys have "getCacheKey u' = key" by (simp add: key_def)
  with stored fresh show ?thesis
    by (simp add: MetadataCache_get_def Let_def item_def)
qed

theorem cache_round_trip_witness:
  "fst (MetadataCache_get
          (MetadataCache_set test_cache 0 '' HTTPS://Example.com ''
             (test_metadata ''https://example.com'' ''Test Title''))
          50 ''https://example.com'')
     = Some (test_metadata ''https://example.com'' ''Test Title'')"
proof -
  have keys: "getCacheKey '' HTTPS://Example.com '' = getCacheKey ''https://example.com''"
    by (simp add: getCacheKey_def trim_def toLowerCase_def toLowerCase_char_def
          isWhiteSpace_def)
  have fresh: "50 < 0 + ttl test_cache"
    by (simp add: test_cache_def MetadataCache_new_def)
  have cap: "1 \<le> maxItems test_cache" "Map_size (cache test_cache) \<le> maxItems test_cache"
    by (simp_all add: test_cache_def MetadataCache_new_def Map_size_def)
  have mono: "\<forall>e\<in>set (cache test_cache). timestamp (snd e) \<le> 0"
    by (simp add: test_cache_def MetadataCache_new_def)
  from cache_round_trip[OF keys fresh cap mono] show ?thesis .
qed


section \<open>The services\<close>

lemmas service_eval_defs = merged_enableCache_def service_fetchOptions_def
  service_new_cache_def default_ServiceOptions_def default_FetchOptions_def
  mergeFetchOptions_def fetchContent_def fetchContent_run_def fetch_loop.simps
  transport_ok_def transport_failing_def example_clock_def

lemma LinkMetadataService_saveImage_none:
  "\<not> truthy (getProp parsed Image) \<Longrightarrow> LinkMetadataService_saveImage save now parsed = parsed"
  by (cases "getProp parsed Image") (auto simp: LinkMetadataService_saveImage_def)

lemma MetadataService_saveImage_none:
  "\<not> truthy (getProp parsed Image) \<Longrightarrow>
     MetadataService_saveImage save settings now url parsed = parsed"
  by (cases "getProp parsed Image") (auto simp: MetadataService_saveImage_def)

lemma LinkMetadataService_saveImage_rejected:
  assumes "\<forall>i f. isl (save i f)"
  shows "LinkMetadataService_saveImage save now parsed = parsed"
proof (cases "getProp parsed Image")
  case (Str i)
  from assms have "isl (save i (toString now @ ''.png''))" by blast
  then obtain e where "save i (toString now @ ''.png'') = Inl e"
    by (cases "save i (toString now @ ''.png'')") auto
  with Str show ?thesis by (simp add: LinkMetadataService_saveImage_def)
qed (simp_all add: LinkMetadataService_saveImage_def)

text \<open>The outcome of the example transport and of \<open>parse\<close> on the example pages.\<close>

lemma example_fetch:
  "fetchContent (transport_ok code html) url (service_fetchOptions default_ServiceOptions)
     = Inr \<lparr> status = code, response_text = html \<rparr>"
  by (simp add: service_eval_defs)

lemma example_miss:
  "fst (if merged_enableCache default_ServiceOptions
        then MetadataCache_get (service_new_cache default_ServiceOptions)
               (now_get example_clock) url
        else (None, service_new_cache default_ServiceOptions)) = None"
  by (simp add: service_eval_defs MetadataCache_new_def MetadataCache_get_def Map_get_def)

lemma example_parse_og_title:
  "\<exists>parsed. MetadataParser_parse example_platform MetadataParser_new example_url og_title_html
      = Inr parsed \<and> getProp parsed Image = Undefined"
  by (simp add: example_page_defs parser_defs)

lemma example_parse_twitter_image:
  "\<exists>parsed. MetadataParser_parse example_platform MetadataParser_new example_url
      twitter_image_html = Inr parsed \<and>
     getProp parsed Image = Str ''https://example.com/image.jpg''"
  by (simp add: example_page_defs parser_defs)

text \<open>
  Claim C9. When the record that \<open>parse\<close> returns has no image (or \<open>parse\<close> or
  \<open>fetchContent\<close> is not reached or throws), the two services give the same result and leave
  the same cache, for every URL, cache, transport, clock, options, settings and callbacks.
\<close>

theorem services_agree_without_image:
  assumes "\<And>response parsed.
     fetchContent requestUrl url (service_fetchOptions options) = Inr response \<Longrightarrow>
     MetadataParser_parse P MetadataParser_new url (response_text response) = Inr parsed \<Longrightarrow>
     \<not> truthy (getProp parsed Image)"
  shows "MetadataService_getMetadata P requestUrl save2 settings options clk c url =
         LinkMetadataService_getMetadata P requestUrl save1 options clk c url"
  using assms
  by (auto simp: MetadataService_getMetadata_def LinkMetadataService_getMetadata_def
        LinkMetadataService_saveImage_none MetadataService_saveImage_none
      split: prod.splits option.splits sum.splits)

theorem services_agree_without_image_witness:
  "MetadataService_getMetadata example_platform (transport_ok 200 og_title_html)
     (Some save_resolves) (Some \<lparr> preferLocalImages = Some True \<rparr>) default_ServiceOptions
     example_clock (service_new_cache default_ServiceOptions) example_url =
   LinkMetadataService_getMetadata example_platform (transport_ok 200 og_title_html)
     save_rejects default_ServiceOptions
     example_clock (service_new_cache default_ServiceOptions) example_url"
proof -
  have h: "\<And>response parsed.
     fetchContent (transport_ok 200 og_title_html) example_url
       (service_fetchOptions default_ServiceOptions) = Inr response \<Longrightarrow>
     MetadataParser_parse example_platform MetadataParser_new example_url
       (response_text response) = Inr parsed \<Longrightarrow>
     \<not> truthy (getProp parsed Image)"
    using example_parse_og_title by (auto simp: example_fetch)
  show ?thesis
    by (rule services_agree_without_image[OF h])
qed

text \<open>
  Claim C4. Whenever \<open>fetchContent\<close> and \<open>parse\<close> succeed for a URL, \<open>getMetadata\<close>
  resolves with a record; when the cache has no live entry and the callback rejects every
  call, the \<open>image\<close> of that record is the one \<open>parse\<close> produced. When the cache has no
  live entry, an error of \<open>fetchContent\<close> is the error of \<open>getMetadata\<close>, and so is an
  error of \<open>parse\<close>.
\<close>

theorem getMetadata_failure_tolerance:
  "(\<forall>response parsed.
      fetchContent requestUrl url (service_fetchOptions options) = Inr response \<and>
      MetadataParser_parse P MetadataParser_new url (response_text response) = Inr parsed \<longrightarrow>
        \<not> isl (fst (LinkMetadataService_getMetadata P requestUrl save options clk c url)) \<and>
        (fst (if merged_enableCache options then MetadataCache_get c (now_get clk) url
              else (None, c)) = None \<and> (\<forall>i f. isl (save i f)) \<longrightarrow>
           fst (LinkMetadataService_getMetadata P requestUrl save options clk c url)
             = Inr parsed \<and>
           result_prop (fst (LinkMetadataService_getMetadata P requestUrl save options clk
                               c url)) Image = Inr (getProp parsed Image))) \<and>
   (\<forall>err.
      fst (if merged_enableCache options then MetadataCache_get c (now_get clk) url
           else (None, c)) = None \<and>
      fetchContent requestUrl url (service_fetchOptions options) = Inl err \<longrightarrow>
        fst (LinkMetadataService_getMetadata P requestUrl save options clk c url) = Inl err) \<and>
   (\<forall>response err.
      fst (if merged_enableCache options then MetadataCache_get c (now_get clk) url
           else (None, c)) = None \<and>
      fetchContent requestUrl url (service_fetchOptions options) = Inr response \<and>
      MetadataParser_parse P MetadataParser_new url (response_text response) = Inl err \<longrightarrow>
        fst (LinkMetadataService_getMetadata P requestUrl save options clk c url) = Inl err)"
  by (auto simp: LinkMetadataService_getMetadata_def Let_def result_prop_def
        LinkMetadataService_saveImage_rejected
      split: prod.splits option.splits sum.splits)

theorem getMetadata_failure_tolerance_witness:
  "result_prop (fst (LinkMetadataService_getMetadata example_platform
                       (transport_ok 200 twitter_image_html) save_rejects
                       default_ServiceOptions example_clock
                       (service_new_cache default_ServiceOptions) example_url)) Image
     = Inr (Str ''https://example.com/image.jpg'') \<and>
   fst (LinkMetadataService_getMetadata example_platform
          (transport_failing ''Connection failed'') save_rejects
          default_ServiceOptions example_clock
          (service_new_cache default_ServiceOptions) example_url)
     = Inl (NetworkError ''Connection failed'' example_url) \<and>
   fst (LinkMetadataService_getMetadata example_platform
          (transport_ok 200 og_title_html) save_rejects
          default_ServiceOptions example_clock
          (service_new_cache default_ServiceOptions) ''not a url'')
     = Inl (ParseError ''Invalid URL'' og_title_html)"
proof -
  from example_parse_twitter_image obtain parsed where
    p: "MetadataParser_parse example_platform MetadataParser_new example_url
          (response_text \<lparr> status = 200, response_text = twitter_image_html \<rparr>) = Inr parsed"
    and i: "getProp parsed Image = Str ''https://example.com/image.jpg''"
    by auto
  have rej: "\<forall>i f. isl (save_rejects i f)"
    by (simp add: save_rejects_def)
  have failing: "fetchContent (transport_failing ''Connection failed'') example_url
                   (service_fetchOptions default_ServiceOptions)
                 = Inl (NetworkError ''Connection failed'' example_url)"
    by (simp add: service_eval_defs)
  have bad: "MetadataParser_parse example_platform MetadataParser_new ''not a url''
               (response_text \<lparr> status = 200, response_text = og_title_html \<rparr>)
             = Inl (ParseError ''Invalid URL'' og_title_html)"
    by (simp add: MetadataParser_parse_def example_platform_def example_url_def)
  from getMetadata_failure_tolerance[of "transport_ok 200 twitter_image_html" example_url
         default_ServiceOptions example_platform save_rejects example_clock
         "service_new_cache default_ServiceOptions"]
       example_fetch[of 200 twitter_image_html example_url] p i rej
       example_miss[of example_url]
  have one: "result_prop (fst (LinkMetadataService_getMetadata example_platform
                       (transport_ok 200 twitter_image_html) save_rejects
                       default_ServiceOptions example_clock
                       (service_new_cache default_ServiceOptions) example_url)) Image
     = Inr (Str ''https://example.com/image.jpg'')"
    by metis
  from getMetadata_failure_tolerance[of "transport_failing ''Connection failed''" example_url
         default_ServiceOptions example_platform save_rejects example_clock
         "service_new_cache default_ServiceOptions"]
       failing example_miss[of example_url]
  have two: "fst (LinkMetadataService_getMetadata example_platform
          (transport_failing ''Connection failed'') save_rejects
          default_ServiceOptions example_clock
          (service_new_cache default_ServiceOptions) example_url)
     = Inl (NetworkError ''Connection failed'' example_url)"
    by blast
  from getMetadata_failure_tolerance[of "transport_ok 200 og_title_html" "''not a url''"
         default_ServiceOptions example_platform save_rejects example_clock
         "service_new_cache default_ServiceOptions"]
       example_fetch[of 200 og_title_html "''not a url''"] bad
       example_miss[of "''not a url''"]
  have three: "fst (LinkMetadataService_getMetadata example_platform
          (transport_ok 200 og_title_html) save_rejects
          default_ServiceOptions example_clock
          (service_new_cache default_ServiceOptions) ''not a url'')
     = Inl (ParseError ''Invalid URL'' og_title_html)"
    by blast
  from one two three show ?thesis by simp
qed


text \<open>
  Claim C2 does not hold for \<open>LinkMetadataService\<close> (core/link-metadata/service.ts): when
  the page has an image and the callback resolves with \<open>attachments/image.png\<close>, the record
  it returns has no \<open>localImage\<close>, and its \<open>image\<close> is the saved path, whatever the
  settings say.
\<close>

theorem LinkMetadataService_localImage_counterexample:
  "result_prop (fst (LinkMetadataService_getMetadata example_platform
                       (transport_ok 200 twitter_image_html) save_resolves
                       default_ServiceOptions example_clock
                       (service_new_cache default_ServiceOptions) example_url)) LocalImage
     = Inr Undefined \<and>
   result_prop (fst (LinkMetadataService_getMetadata example_platform
                       (transport_ok 200 twitter_image_html) save_resolves
                       default_ServiceOptions example_clock
                       (service_new_cache default_ServiceOptions) example_url)) Image
     = Inr (Str ''attachments/image.png'')"
  by (simp add: LinkMetadataService_getMetadata_def LinkMetadataService_saveImage_def
        service_eval_defs MetadataCache_new_def MetadataCache_get_def Map_get_def
        save_resolves_def example_page_defs parser_defs)

text \<open>
  Claim C2, amended. Let the cache have no live entry for the URL, let \<open>fetchContent\<close>
  and \<open>parse\<close> succeed, and let the parsed record have the image \<open>imageUrl\<close>.
  \<^item> \<open>LinkMetadataService.getMetadata\<close> (core/link-metadata/service.ts): when the callback
    resolves with \<open>p\<close>, the record returned has \<open>image = p\<close> and no \<open>localImage\<close>.
  \<^item> \<open>MetadataService.getMetadata\<close> (services/metadata-service.ts): when the callback
    resolves with a path \<open>p\<close> that is not empty, the record returned has \<open>localImage = p\<close>,
    and its \<open>image\<close> is \<open>p\<close> when the setting \<open>preferLocalImages\<close> is on and the parsed
    \<open>imageUrl\<close> otherwise.
\<close>

theorem image_persistence_fields:
  assumes miss: "fst (if merged_enableCache options then MetadataCache_get c (now_get clk) url
                      else (None, c)) = None"
    and fetched: "fetchContent requestUrl url (service_fetchOptions options) = Inr response"
    and parsed: "MetadataParser_parse P MetadataParser_new url (response_text response)
                   = Inr parsed"
    and image: "getProp parsed Image = Str imageUrl" "imageUrl \<noteq> []"
  shows "(save1 imageUrl (toString (now_file clk) @ ''.png'') = Inr p \<longrightarrow>
            result_prop (fst (LinkMetadataService_getMetadata P requestUrl save1 options clk
                                c url)) Image = Inr (Str p) \<and>
            result_prop (fst (LinkMetadataService_getMetadata P requestUrl save1 options clk
                                c url)) LocalImage = Inr Undefined) \<and>
         (save2 imageUrl (''image_'' @ urlHash url @ ''_'' @ toString (now_file clk) @ ''.png'')
            = Inr p \<and> p \<noteq> [] \<longrightarrow>
            result_prop (fst (MetadataService_getMetadata P requestUrl (Some save2) settings
                                options clk c url)) LocalImage = Inr (Str p) \<and>
            result_prop (fst (MetadataService_getMetadata P requestUrl (Some save2) settings
                                options clk c url)) Image =
              Inr (if (case settings of
                         None \<Rightarrow> False
                       | Some st \<Rightarrow> (case preferLocalImages st of None \<Rightarrow> False | Some b \<Rightarrow> b))
                   then Str p else Str imageUrl))"
proof -
  from parse_no_localImage[OF parsed] have nl: "getProp parsed LocalImage = Undefined"
    by (simp add: getProp_def)
  have one: "save1 imageUrl (toString (now_file clk) @ ''.png'') = Inr p \<Longrightarrow>
    LinkMetadataService_saveImage save1 (now_file clk) parsed = parsed(Image \<mapsto> Str p)"
    using image by (simp add: LinkMetadataService_saveImage_def)
  have two: "save2 imageUrl (''image_'' @ urlHash url @ ''_'' @ toString (now_file clk) @ ''.png'')
            = Inr p \<Longrightarrow> p \<noteq> [] \<Longrightarrow>
    MetadataService_saveImage (Some save2) settings (now_file clk) url parsed =
      (if (case settings of
             None \<Rightarrow> False
           | Some st \<Rightarrow> (case preferLocalImages st of None \<Rightarrow> False | Some b \<Rightarrow> b))
       then parsed(LocalImage \<mapsto> Str p, Image \<mapsto> Str p)
       else parsed(LocalImage \<mapsto> Str p))"
    using image by (simp add: MetadataService_saveImage_def)
  obtain cached c1 where
    "(if merged_enableCache options then MetadataCache_get c (now_get clk) url else (None, c))
      = (cached, c1)"
    by (cases "if merged_enableCache options then MetadataCache_get c (now_get clk) url
               else (None, c)")
  with miss have g:
    "(if merged_enableCache options then MetadataCache_get c (now_get clk) url else (None, c))
      = (None, c1)" by simp
  have r1: "fst (LinkMetadataService_getMetadata P requestUrl save1 options clk c url) =
         Inr (LinkMetadataService_saveImage save1 (now_file clk) parsed)"
    using g fetched parsed by (simp add: LinkMetadataService_getMetadata_def Let_def)
  have r2: "fst (MetadataService_getMetadata P requestUrl (Some save2) settings options clk
                   c url) =
         Inr (MetadataService_saveImage (Some save2) settings (now_file clk) url parsed)"
    using g fetched parsed by (simp add: MetadataService_getMetadata_def Let_def)
  show ?thesis
    using one two r1 r2 nl image by (auto simp: getProp_def result_prop_def)
qed

theorem image_persistence_fields_witness:
  "result_prop (fst (MetadataService_getMetadata example_platform
                       (transport_ok 200 twitter_image_html) (Some save_resolves)
                       (Some \<lparr> preferLocalImages = Some False \<rparr>)
                       default_ServiceOptions example_clock
                       (service_new_cache default_ServiceOptions) example_url)) LocalImage
     = Inr (Str ''attachments/image.png'') \<and>
   result_prop (fst (MetadataService_getMetadata example_platform
                       (transport_ok 200 twitter_image_html) (Some save_resolves)
                       (Some \<lparr> preferLocalImages = Some False \<rparr>)
                       default_ServiceOptions example_clock
                       (service_new_cache default_ServiceOptions) example_url)) Image
     = Inr (Str ''https://example.com/image.jpg'') \<and>
   result_prop (fst (LinkMetadataService_getMetadata example_platform
                       (transport_ok 200 twitter_image_html) save_resolves
                       default_ServiceOptions example_clock
                       (service_new_cache default_ServiceOptions) example_url)) Image
     = Inr (Str ''attachments/image.png'')"
proof -
  from example_parse_twitter_image obtain parsed where
    p: "MetadataParser_parse example_platform MetadataParser_new example_url
          (response_text \<lparr> status = 200, response_text = twitter_image_html \<rparr>) = Inr parsed"
    and i: "getProp parsed Image = Str ''https://example.com/image.jpg''"
    by auto
  have ne: "''https://example.com/image.jpg'' \<noteq> []" by simp
  have s1: "save_resolves ''https://example.com/image.jpg''
              (toString (now_file example_clock) @ ''.png'') = Inr ''attachments/image.png''"
    by (simp add: save_resolves_def)
  have s2: "save_resolves ''https://example.com/image.jpg''
              (''image_'' @ urlHash example_url @ ''_'' @ toString (now_file example_clock)
                 @ ''.png'') = Inr ''attachments/image.png'' \<and> ''attachments/image.png'' \<noteq> []"
    by (simp add: save_resolves_def)
  from image_persistence_fields[OF example_miss example_fetch p i ne,
         of save_resolves "''attachments/image.png''" save_resolves
            "Some \<lparr> preferLocalImages = Some False \<rparr>"] s1 s2
  show ?thesis by simp
qed


end
